theory Spec2Isabelle
  imports Complex_Main "HOL-Library.Word" "HOL-Library.Char_ord" "HOL-Library.List_Lexorder"
    "HOL-Library.Multiset"
begin

section \<open>Durations and numbers\<close>

text \<open>
  \<open>time.Duration\<close> is an \<open>int64\<close> count of nanoseconds. The program never adds or
  multiplies durations at run time (it only divides them and converts them), so no operation on
  them can wrap around and they are modelled as \<open>int\<close>.

  \<open>float64\<close> is modelled as \<open>real\<close>. Every \<open>float64\<close> the scorer handles is a whole number
  of magnitude below \<open>2 ^ 53\<close> (see \<open>Score_exact_range\<close>), where \<open>float64\<close> arithmetic is exact.
  The aggregator rounds once, in the division that gives the mean, and the whole nanoseconds
  it keeps of the quotient do not depend on that rounding (see \<open>mean_rounding_robust\<close>). The
  failure ratio, a count divided by fifteen, is the one value taken as the exact quotient
  where \<open>float64\<close> holds the nearest representable number.
\<close>

type_synonym Duration = int
type_synonym float64 = real

definition Nanosecond :: Duration where
  "Nanosecond = 1"

definition Millisecond :: Duration where
  "Millisecond = 1000000 * Nanosecond"

definition Second :: Duration where
  "Second = 1000 * Millisecond"

text \<open>\<^verbatim>\<open>failDuration = time.Second * 10\<close> and \<^verbatim>\<open>testrep = 15\<close>.\<close>

definition failDuration :: Duration where
  "failDuration = Second * 10"

definition testrep :: nat where
  "testrep = 15"

text \<open>
  Go's integer division \<open>a / b\<close> truncates towards zero; HOL's \<open>div\<close> rounds down. The only
  divisor in the program is the constant \<open>time.Millisecond\<close>, so the panic of a division by
  zero does not arise.
\<close>

definition go_div :: "int \<Rightarrow> int \<Rightarrow> int" where
  "go_div a b = (if (a < 0) = (b < 0) then \<bar>a\<bar> div \<bar>b\<bar> else - (\<bar>a\<bar> div \<bar>b\<bar>))"

text \<open>
  The conversion \<^verbatim>\<open>time.Duration(f)\<close> of a \<open>float64\<close> drops the fraction (towards zero).
  \<open>None\<close> stands for NaN, which the statistics library returns together with its error for an
  empty input; converting NaN is implementation-specific in Go and gives the least \<open>int64\<close> on
  amd64.
\<close>

definition Duration_of_float64 :: "float64 option \<Rightarrow> Duration" where
  "Duration_of_float64 f =
     (case f of None \<Rightarrow> - (2 ^ 63)
      | Some x \<Rightarrow> (if 0 \<le> x then \<lfloor>x\<rfloor> else \<lceil>x\<rceil>))"

text \<open>\<^verbatim>\<open>func getms(dur time.Duration) float64 { return float64(dur) / float64(time.Millisecond) }\<close>\<close>

definition getms :: "Duration \<Rightarrow> float64" where
  "getms dur = real_of_int dur / real_of_int Millisecond"

section \<open>Resolver list (\<open>appendIfMissing\<close>, \<open>init\<close>)\<close>

text \<open>
  \<^verbatim>\<open>
  func appendIfMissing(src []string, new string) []string {
      for _, ele := range src {
          if ele == new { return src }
      }
      return append(src, new)
  }
  \<close>
  The loop is a recursion over the part of \<open>src\<close> still to be scanned; the whole slice is
  carried along because both exits return it.
\<close>

fun appendIfMissing_scan :: "string list \<Rightarrow> string list \<Rightarrow> string \<Rightarrow> string list" where
  "appendIfMissing_scan src [] new = src @ [new]"
| "appendIfMissing_scan src (ele # rest) new =
     (if ele = new then src else appendIfMissing_scan src rest new)"

definition appendIfMissing :: "string list \<Rightarrow> string \<Rightarrow> string list" where
  "appendIfMissing src new = appendIfMissing_scan src src new"

text \<open>
  \<^verbatim>\<open>
  resolvers = defaultResolvers
  for _, res := range tmp {
      resolvers = appendIfMissing(resolvers, res)
  }
  \<close>
  \<open>defaultResolvers\<close> is filled from a \<open>range\<close> over the map \<open>resolverNames\<close>, whose
  iteration order Go leaves open, so the default list is an argument here.
\<close>

fun init_resolvers :: "string list \<Rightarrow> string list \<Rightarrow> string list" where
  "init_resolvers resolvers [] = resolvers"
| "init_resolvers resolvers (res # tmp) = init_resolvers (appendIfMissing resolvers res) tmp"

text \<open>
  The specification's wording, for comparison with the code: duplicates suppressed by exact
  string match, order of first appearance preserved.
\<close>

fun first_occurrences :: "string list \<Rightarrow> string list" where
  "first_occurrences [] = []"
| "first_occurrences (x # xs) = x # first_occurrences (filter (\<lambda>y. y \<noteq> x) xs)"

section \<open>Probe catalog\<close>

definition resolverNames :: "(string \<times> string) list" where
  "resolverNames =
    [(''8.8.8.8'', ''Google''),
     (''1.1.1.1'', ''Cloudflare''),
     (''9.9.9.9'', ''Quad9''),
     (''114.114.114.114'', ''114dns''),
     (''119.29.29.29'', ''DNSPod''),
     (''180.76.76.76'', ''Baidu''),
     (''208.67.222.222'', ''OpenDNS''),
     (''199.85.126.20'', ''Norton''),
     (''185.228.168.168'', ''Clean Browsing''),
     (''8.26.56.26'', ''Comodo''),
     (''[2001:4860:4860::8888]'', ''Google''),
     (''[2606:4700:4700::1111]'', ''Cloudflare''),
     (''[2620:fe::fe]'', ''Quad9''),
     (''[2620:0:ccc::2]'', ''OpenDNS''),
     (''[2a0d:2a00:1::]'', ''Clean Browsing'')]"

text \<open>\<^verbatim>\<open>expectedanswers = map[string]struct{}{...}\<close>: a set of strings, kept as a Go map.\<close>

definition expectedanswers :: "string \<rightharpoonup> unit" where
  "expectedanswers = map_of [(''138.197.54.54'', ()), (''138.197.53.4'', ())]"

definition hostnamesHIT :: "string list" where
  "hostnamesHIT = [''fixed.turbobytes.net.'', ''fixed2.turbobytes.net.'']"

definition auths :: "(string \<times> string) list" where
  "auths =
    [(''NS1'', ''tbrum3.com.''),
     (''Google'', ''tbrum4.com.''),
     (''AWS Route53'', ''tbrum5.com.''),
     (''DNSimple'', ''tbrum14.com.''),
     (''GoDaddy'', ''tbrum2.com.''),
     (''Akamai'', ''tbrum9.com.''),
     (''Dyn'', ''tbrum10.com.''),
     (''CloudFlare'', ''tbrum8.com.''),
     (''EasyDNS'', ''tbrum16.com.''),
     (''Ultradns'', ''tbrum22.com.''),
     (''Azure'', ''tbrum25.com.'')]"

text \<open>
  A Go map read \<^verbatim>\<open>m[k]\<close> gives the zero value for a missing key: the empty string here.
\<close>

definition auths_at :: "string \<Rightarrow> string" where
  "auths_at auth = (case map_of auths auth of None \<Rightarrow> [] | Some host \<Rightarrow> host)"

definition resolverNames_at :: "string \<Rightarrow> string" where
  "resolverNames_at res = (case map_of resolverNames res of None \<Rightarrow> [] | Some name \<Rightarrow> name)"

text \<open>
  \<^verbatim>\<open>
  authSl = make([]string, 0)
  for auth := range auths { authSl = append(authSl, auth) }
  sort.Strings(authSl)
  \<close>
  The keys are collected in the map's iteration order and then sorted. Go compares strings
  byte by byte, which is the lexicographic order on \<open>char list\<close>; the sorted list of the keys
  does not depend on the order they were collected in.
\<close>

definition authSl :: "string list" where
  "authSl = sort (map fst auths)"

section \<open>The DNS client, the random source and the world\<close>

text \<open>
  The DNS library (\<open>miekg/dns\<close>) is outside the program. What the probe sees of it is the
  result of \<^verbatim>\<open>c.ExchangeContext(ctx, m, resolver+":53")\<close>: an error, or a reply with its
  answer section and the round-trip time.

  An answer is a resource record; the type assertion \<^verbatim>\<open>in.Answer[0].(*dns.A)\<close> asks which
  kind it is. The \<open>A\<close> record carries the four octets of its address, which
  \<^verbatim>\<open>arec.A.String()\<close> prints in dotted decimal.
\<close>

datatype IP = IPv4 "8 word" "8 word" "8 word" "8 word"

datatype RR = dns_A IP | dns_AAAA string | dns_CNAME string | dns_other nat

datatype exchange = ExchangeError string | ExchangeReply "RR list" Duration

text \<open>
  The probe's errors: the one \<open>ExchangeContext\<close> returned, passed on as it is, or one made
  with \<^verbatim>\<open>fmt.Errorf\<close> from a fixed message.
\<close>

datatype error = ExchangeErr string | Errorf string

fun itoa :: "nat \<Rightarrow> string" where
  "itoa n = (if n < 10 then [''0123456789'' ! n]
             else itoa (n div 10) @ [''0123456789'' ! (n mod 10)])"

declare itoa.simps [simp del]

fun IP_String :: "IP \<Rightarrow> string" where
  "IP_String (IPv4 a b c d) =
     itoa (unat a) @ ''.'' @ itoa (unat b) @ ''.'' @ itoa (unat c) @ ''.'' @ itoa (unat d)"

text \<open>
  The question the probe builds: \<^verbatim>\<open>m.RecursionDesired = true\<close>,
  \<^verbatim>\<open>m.SetQuestion(dns.Fqdn(hostname), dns.TypeA)\<close>, sent to \<^verbatim>\<open>resolver+":53"\<close>.
  \<open>qname\<close> is the name handed to \<open>dns.Fqdn\<close>.
\<close>

definition TypeA :: nat where
  "TypeA = 1"

record query =
  qname :: string
  qtype :: nat
  RecursionDesired :: bool
  server :: string

text \<open>
  The world of one sequential run: \<open>net\<close> gives the outcome of the \<open>k\<close>-th exchange of the
  run and \<open>rng\<close> the \<open>k\<close>-th raw value of the random source; \<open>ncalls\<close> and \<open>nrand\<close> count
  how many of each have been used, and \<open>sent\<close> is the log of the questions sent so far.
\<close>

record world =
  net :: "nat \<Rightarrow> exchange"
  rng :: "nat \<Rightarrow> nat"
  ncalls :: nat
  nrand :: nat
  sent :: "query list"

text \<open>\<^verbatim>\<open>rand.Intn(n)\<close>: a value in \<open>[0, n)\<close>, here the next raw value reduced modulo \<open>n\<close>.\<close>

definition rand_Intn :: "nat \<Rightarrow> world \<Rightarrow> nat \<times> world" where
  "rand_Intn n w = (rng w (nrand w) mod n, w\<lparr>nrand := nrand w + 1\<rparr>)"

definition letterRunes :: string where
  "letterRunes = ''abcdefghijklmnopqrstuvwxyz''"

text \<open>
  \<^verbatim>\<open>
  func randStringRunes(n int) string {
      b := make([]rune, n)
      for i := range b {
          b[i] = letterRunes[rand.Intn(len(letterRunes))]
      }
      return string(b)
  }
  \<close>
  The first argument of the loop counts the iterations left, the second is \<open>i\<close>.
\<close>

fun randStringRunes_loop :: "nat \<Rightarrow> nat \<Rightarrow> string \<Rightarrow> world \<Rightarrow> string \<times> world" where
  "randStringRunes_loop 0 i b w = (b, w)"
| "randStringRunes_loop (Suc k) i b w =
     (case rand_Intn (length letterRunes) w of
        (r, w') \<Rightarrow> randStringRunes_loop k (i + 1) (b[i := letterRunes ! r]) w')"

definition randStringRunes :: "nat \<Rightarrow> world \<Rightarrow> string \<times> world" where
  "randStringRunes n w = randStringRunes_loop n 0 (replicate n (CHR 0x00)) w"

section \<open>Resolver probe (\<open>testresolver\<close>)\<close>

text \<open>
  \<^verbatim>\<open>
  if err := queryLimit.Acquire(context.TODO(), 1); err != nil { log.Fatal(...) }
  defer queryLimit.Release(1)
  m := new(dns.Msg); m.Id = dns.Id(); m.RecursionDesired = true
  m.SetQuestion(dns.Fqdn(hostname), dns.TypeA)
  ctx, cancel := context.WithTimeout(context.Background(), time.Second)
  in, rtt, err := c.ExchangeContext(ctx, m, resolver+":53")
  if err != nil { return &failDuration, err }
  if len(in.Answer) != 1 { return &failDuration, fmt.Errorf("Number of answers is not 1") }
  arec, ok := in.Answer[0].(*dns.A)
  if !ok { return &failDuration, fmt.Errorf("Answer is not type A") }
  _, ok = expectedanswers[arec.A.String()]
  if !ok { return &failDuration, fmt.Errorf("Got strange answer. Evil hijacking resolver?") }
  return &rtt, nil
  \<close>
  The probe first takes a unit of the query limiter and gives it back when it returns. The
  limiter is acquired with a context that is never cancelled, so the acquisition returns no
  error; how long it blocks is a matter of the concurrent tasks and is not part of this
  sequential model. The returned pointer is dereferenced by the caller at once, so the
  duration itself is returned here.
\<close>

definition testresolver :: "string \<Rightarrow> string \<Rightarrow> world \<Rightarrow> (Duration \<times> error option) \<times> world" where
  "testresolver hostname resolver w =
     (let m = \<lparr>qname = hostname, qtype = TypeA, RecursionDesired = True,
               server = resolver @ '':53''\<rparr>;
          w' = w\<lparr>ncalls := ncalls w + 1, sent := sent w @ [m]\<rparr>
      in case net w (ncalls w) of
           ExchangeError err \<Rightarrow> ((failDuration, Some (ExchangeErr err)), w')
         | ExchangeReply Answer rtt \<Rightarrow>
             if length Answer \<noteq> 1
             then ((failDuration, Some (Errorf ''Number of answers is not 1'')), w')
             else (case Answer ! 0 of
                     dns_A ip \<Rightarrow>
                       (case expectedanswers (IP_String ip) of
                          None \<Rightarrow>
                            ((failDuration,
                              Some (Errorf ''Got strange answer. Evil hijacking resolver?'')), w')
                        | Some _ \<Rightarrow> ((rtt, None), w'))
                   | _ \<Rightarrow> ((failDuration, Some (Errorf ''Answer is not type A'')), w')))"

text \<open>
  The pair the probe returns when the exchange it makes has the outcome \<open>x\<close>, and the
  outcome of the \<open>k\<close>-th exchange after the ones already made in \<open>w\<close>.
\<close>

definition probe_result :: "exchange \<Rightarrow> Duration \<times> error option" where
  "probe_result x =
     fst (testresolver [] [] \<lparr>net = (\<lambda>k. x), rng = (\<lambda>k. 0), ncalls = 0, nrand = 0, sent = []\<rparr>)"

definition trial :: "world \<Rightarrow> nat \<Rightarrow> Duration \<times> error option" where
  "trial w k = probe_result (net w (ncalls w + k))"

text \<open>The question of one probe, as \<open>testresolver\<close> builds it.\<close>

definition question :: "string \<Rightarrow> string \<Rightarrow> query" where
  "question hostname resolver =
     \<lparr>qname = hostname, qtype = TypeA, RecursionDesired = True, server = resolver @ '':53''\<rparr>"

section \<open>Sample aggregator (\<open>runtests\<close>)\<close>

text \<open>
  Modelled from the spec: the statistics library (\<open>montanaflynn/stats\<close>) is not part of the
  sources; the specification asks of it "mean and median over a sequence of numeric duration
  values". \<open>stats_Mean\<close> is the arithmetic mean, \<open>stats_Median\<close> the middle value of the
  sorted input (the mean of the two middle values for an even count). Both return an error
  and NaN for an empty input, which is \<open>None\<close> here.
\<close>

definition stats_Mean :: "float64 list \<Rightarrow> float64 option" where
  "stats_Mean input =
     (if length input = 0 then None else Some (sum_list input / real (length input)))"

definition stats_Median :: "float64 list \<Rightarrow> float64 option" where
  "stats_Median input =
     (let c = sort input; l = length c
      in if l = 0 then None
         else if l mod 2 = 0 then stats_Mean (take 2 (drop (l div 2 - 1) c))
         else Some (c ! (l div 2)))"

record resolverResults =
  mean :: Duration
  median :: Duration
  failratio :: float64

text \<open>
  \<^verbatim>\<open>
  vals := make([]time.Duration, 0)
  fails := 0
  for i := 0; i < testrep; i++ {
      hostname := host
      if rndSuffix { hostname = randStringRunes(15) + "." + host }
      rtt, err := testresolver(hostname, res)
      vals = append(vals, *rtt)
      if err != nil { fails++ }
  }
  \<close>
\<close>

function runtests_loop ::
  "nat \<Rightarrow> string \<Rightarrow> string \<Rightarrow> bool \<Rightarrow> Duration list \<Rightarrow> nat \<Rightarrow> world
     \<Rightarrow> (Duration list \<times> nat) \<times> world" where
  "runtests_loop i host res rndSuffix vals fails w =
     (if i < testrep then
        (case (if rndSuffix
               then (case randStringRunes 15 w of (s, w1) \<Rightarrow> (s @ ''.'' @ host, w1))
               else (host, w)) of
           (hostname, w1) \<Rightarrow>
             (case testresolver hostname res w1 of
                ((rtt, err), w2) \<Rightarrow>
                  runtests_loop (i + 1) host res rndSuffix (vals @ [rtt])
                    (if err \<noteq> None then fails + 1 else fails) w2))
      else ((vals, fails), w))"
  by pat_completeness auto
termination
  by (relation "measure (\<lambda>(i, host, res, rndSuffix, vals, fails, w). testrep - i)") auto

declare runtests_loop.simps [simp del]

text \<open>
  \<^verbatim>\<open>
  validVals := make([]float64, len(vals))
  for i, val := range vals { validVals[i] = float64(val) }
  median, _ := stats.Median(validVals)
  mean, _ := stats.Mean(validVals)
  return resolverResults{mean: time.Duration(mean), median: time.Duration(median),
                         failratio: float64(fails) / testrep}
  \<close>
\<close>

definition runtests :: "string \<Rightarrow> string \<Rightarrow> bool \<Rightarrow> world \<Rightarrow> resolverResults \<times> world" where
  "runtests host res rndSuffix w =
     (case runtests_loop 0 host res rndSuffix [] 0 w of
        ((vals, fails), w') \<Rightarrow>
          (let validVals = map real_of_int vals;
               median = stats_Median validVals;
               mean = stats_Mean validVals
           in (\<lparr>mean = Duration_of_float64 mean, median = Duration_of_float64 median,
                failratio = real fails / real testrep\<rparr>, w')))"

text \<open>
  Names used to state what the aggregator does. \<open>rand_label w off n\<close> is the label of \<open>n\<close>
  letters made from the raw random values number \<open>off\<close>, ..., \<open>off + n - 1\<close>;
  \<open>trial_hostname\<close> is the name queried in trial \<open>k\<close> of an aggregation that starts in \<open>w\<close>
  (with the randomization flag set, trial \<open>k\<close> uses the fifteen raw random values from number
  \<open>nrand w + 15 * k\<close> on, so every trial has values of its own); \<open>trials w\<close> are the outcomes of
  the \<open>testrep\<close> trials.
\<close>

definition rand_label :: "world \<Rightarrow> nat \<Rightarrow> nat \<Rightarrow> string" where
  "rand_label w off n = map (\<lambda>j. letterRunes ! (rng w (off + j) mod length letterRunes)) [0..<n]"

definition trial_hostname :: "string \<Rightarrow> bool \<Rightarrow> world \<Rightarrow> nat \<Rightarrow> string" where
  "trial_hostname host rndSuffix w k =
     (if rndSuffix then rand_label w (nrand w + 15 * k) 15 @ ''.'' @ host else host)"

definition trials :: "world \<Rightarrow> (Duration \<times> error option) list" where
  "trials w = map (trial w) [0..<testrep]"

section \<open>Ranking rows (\<open>SummaryResolver\<close>, \<open>Summary\<close>)\<close>

record SummaryResolver =
  Res :: string
  Score :: float64

type_synonym Summary = "SummaryResolver list"

text \<open>\<^verbatim>\<open>func (a Summary) Less(i, j int) bool { return a[i].Score < a[j].Score }\<close>\<close>

definition Less :: "Summary \<Rightarrow> nat \<Rightarrow> nat \<Rightarrow> bool" where
  "Less a i j = (SummaryResolver.Score (a ! i) < SummaryResolver.Score (a ! j))"

section \<open>Result bundle and scorer (\<open>recursiveResults.Score\<close>)\<close>

type_synonym recursiveResults = "string \<rightharpoonup> resolverResults"

text \<open>Reading a missing key of a Go map gives the zero value of the element type.\<close>

definition results_at :: "recursiveResults \<Rightarrow> string \<Rightarrow> resolverResults" where
  "results_at res k =
     (case res k of None \<Rightarrow> \<lparr>mean = 0, median = 0, failratio = 0\<rparr> | Some result \<Rightarrow> result)"

text \<open>
  \<^verbatim>\<open>
  func (res recursiveResults) Score() float64 {
      result := res["ResolverHit"]
      score := 5 * (float64(result.mean/time.Millisecond) + float64(result.median/time.Millisecond))
      for _, auth := range authSl {
          result := res[auth]
          score += float64(result.mean/time.Millisecond) + float64(result.median/time.Millisecond)
      }
      return score
  }
  \<close>
  The divisions are divisions of \<open>time.Duration\<close>, that is of integers, made before the
  conversion to \<open>float64\<close>.
\<close>

fun Score_loop :: "recursiveResults \<Rightarrow> string list \<Rightarrow> float64 \<Rightarrow> float64" where
  "Score_loop res [] score = score"
| "Score_loop res (auth # rest) score =
     (let result = results_at res auth
      in Score_loop res rest
           (score + (real_of_int (go_div (mean result) Millisecond)
                     + real_of_int (go_div (median result) Millisecond))))"

definition Score :: "recursiveResults \<Rightarrow> float64" where
  "Score res =
     (let result = results_at res ''ResolverHit'';
          score = 5 * (real_of_int (go_div (mean result) Millisecond)
                       + real_of_int (go_div (median result) Millisecond))
      in Score_loop res authSl score)"

text \<open>
  Names for what the scorer computes from one duration and from one sample, and for the
  keys it reads; used to state its properties.
\<close>

definition whole_ms :: "Duration \<Rightarrow> float64" where
  "whole_ms dur = real_of_int (go_div dur Millisecond)"

definition sample_ms :: "resolverResults \<Rightarrow> float64" where
  "sample_ms result = whole_ms (mean result) + whole_ms (median result)"

definition scored_keys :: "string list" where
  "scored_keys = ''ResolverHit'' # authSl"

text \<open>
  The specification's wording of the score, for comparison with the code: the same sum over
  the exact milliseconds of each mean and median, as \<open>getms\<close> gives them. A bundle in which
  every scored mean and median is a whole number of milliseconds.
\<close>

definition Score_in_exact_ms :: "recursiveResults \<Rightarrow> float64" where
  "Score_in_exact_ms res =
     5 * (getms (mean (results_at res ''ResolverHit''))
          + getms (median (results_at res ''ResolverHit'')))
     + (\<Sum>auth\<leftarrow>authSl. getms (mean (results_at res auth))
                         + getms (median (results_at res auth)))"

definition whole_ms_bundle :: "recursiveResults \<Rightarrow> bool" where
  "whole_ms_bundle res =
     list_all (\<lambda>k. Millisecond dvd mean (results_at res k)
                 \<and> Millisecond dvd median (results_at res k))
       scored_keys"

text \<open>
  Two bundles whose corresponding means and medians are less than one millisecond apart, and
  two bundles whose corresponding means and medians have the same whole milliseconds.
\<close>

definition sub_ms_apart :: "recursiveResults \<Rightarrow> recursiveResults \<Rightarrow> bool" where
  "sub_ms_apart res res' =
     list_all (\<lambda>k. \<bar>mean (results_at res k) - mean (results_at res' k)\<bar> < Millisecond
                 \<and> \<bar>median (results_at res k) - median (results_at res' k)\<bar> < Millisecond)
       scored_keys"

definition same_whole_ms :: "recursiveResults \<Rightarrow> recursiveResults \<Rightarrow> bool" where
  "same_whole_ms res res' =
     list_all (\<lambda>k. go_div (mean (results_at res k)) Millisecond
                   = go_div (mean (results_at res' k)) Millisecond
                 \<and> go_div (median (results_at res k)) Millisecond
                   = go_div (median (results_at res' k)) Millisecond)
       scored_keys"

section \<open>Recursive test orchestrator (\<open>testrecursive\<close>)\<close>

text \<open>
  \<^verbatim>\<open>
  results := make(map[string]resolverResults)
  hithost := hostnamesHIT[rand.Intn(len(hostnamesHIT))]
  for i := 0; i < 5; i++ { testresolver(hithost, res) }
  results["ResolverHit"] = runtests(hithost, res, false)
  for _, auth := range authSl {
      host := auths[auth]
      results[auth] = runtests(host, res, true)
  }
  return results
  \<close>
\<close>

fun testrecursive_prime :: "nat \<Rightarrow> string \<Rightarrow> string \<Rightarrow> world \<Rightarrow> world" where
  "testrecursive_prime 0 hithost res w = w"
| "testrecursive_prime (Suc k) hithost res w =
     (case testresolver hithost res w of (ignored, w') \<Rightarrow> testrecursive_prime k hithost res w')"

fun testrecursive_auths ::
  "string list \<Rightarrow> string \<Rightarrow> recursiveResults \<Rightarrow> world \<Rightarrow> recursiveResults \<times> world" where
  "testrecursive_auths [] res results w = (results, w)"
| "testrecursive_auths (auth # rest) res results w =
     (let host = auths_at auth
      in case runtests host res True w of
           (r, w') \<Rightarrow> testrecursive_auths rest res (results(auth \<mapsto> r)) w')"

definition testrecursive :: "string \<Rightarrow> world \<Rightarrow> recursiveResults \<times> world" where
  "testrecursive res w =
     (case rand_Intn (length hostnamesHIT) w of
        (r, w1) \<Rightarrow>
          (let hithost = hostnamesHIT ! r;
               w2 = testrecursive_prime 5 hithost res w1
           in case runtests hithost res False w2 of
                (hit, w3) \<Rightarrow>
                  testrecursive_auths authSl res (Map.empty(''ResolverHit'' \<mapsto> hit)) w3))"

text \<open>
  Names used to state what the orchestrator does: the cache-hit hostname it draws in \<open>w\<close>,
  and the world \<open>w\<close> moved on by \<open>c\<close> exchanges and \<open>r\<close> random values (its log left as it is).
\<close>

definition drawn_hithost :: "world \<Rightarrow> string" where
  "drawn_hithost w = hostnamesHIT ! (rng w (nrand w) mod length hostnamesHIT)"

definition advance :: "nat \<Rightarrow> nat \<Rightarrow> world \<Rightarrow> world" where
  "advance c r w = w\<lparr>ncalls := ncalls w + c, nrand := nrand w + r\<rparr>"

section \<open>Final summary (\<open>main\<close>)\<close>

text \<open>
  \<^verbatim>\<open>
  var summary Summary = make([]SummaryResolver, 0)
  for k, v := range resscore { summary = append(summary, SummaryResolver{k, v}) }
  sort.Sort(summary)
  \<close>
  \<open>resscore\<close> is a Go map, so the order of the \<open>range\<close> is open: the entries come as a list in
  whatever order the run visits them.
\<close>

definition main_summary :: "(string \<times> float64) list \<Rightarrow> Summary" where
  "main_summary resscore = map (\<lambda>(k, v). \<lparr>Res = k, Score = v\<rparr>) resscore"

text \<open>
  \<open>sort.Sort\<close> belongs to Go's standard library. Its contract: it reorders the data so that
  it is in ascending order as \<open>Less\<close> determines, and it is not stable. Which of several
  sorted arrangements it produces is left open, so it is a relation between the slice before
  and after.
\<close>

definition sort_Sort :: "Summary \<Rightarrow> Summary \<Rightarrow> bool" where
  "sort_Sort before after =
     (mset after = mset before
      \<and> (\<forall>j \<in> {0..<length after}. \<forall>i \<in> {0..<j}. \<not> Less after j i))"

text \<open>
  What \<open>main\<close> prints after sorting. The score is kept as a number in the printed items; the
  program formats it with \<^verbatim>\<open>%.0f\<close>.
  \<^verbatim>\<open>
  for _, sum := range summary {
      name := resolverNames[sum.Res]
      if name == "" { name = "Unknown" }
      table.Append([]string{fmt.Sprintf("%s (%s)", sum.Res, name), fmt.Sprintf("%.0f", sum.Score)})
      if *raw { fmt.Printf("Score\t%s\t%.0f\n", sum.Res, sum.Score) }
  }
  if *raw {
      fmt.Printf("Recommendation\t%s\n", summary[0].Res)
  } else {
      table.Render()
      fmt.Printf("You should probably use %s as your default resolver\n", summary[0].Res)
  }
  \<close>
\<close>

datatype printed =
    Println string
  | Printf_Score string float64
  | Printf_Recommendation string
  | table_Render "(string \<times> float64) list"
  | Printf_You_should_probably_use string

datatype panic = index_out_of_range

fun main_rows ::
  "bool \<Rightarrow> Summary \<Rightarrow> (string \<times> float64) list \<Rightarrow> printed list
     \<Rightarrow> (string \<times> float64) list \<times> printed list" where
  "main_rows raw [] table out = (table, out)"
| "main_rows raw (row # rest) table out =
     (let name = resolverNames_at (Res row);
          name = (if name = [] then ''Unknown'' else name);
          table = table @ [(Res row @ '' ('' @ name @ '')'', SummaryResolver.Score row)];
          out = (if raw then out @ [Printf_Score (Res row) (SummaryResolver.Score row)] else out)
      in main_rows raw rest table out)"

definition main_report :: "bool \<Rightarrow> Summary \<Rightarrow> panic + printed list" where
  "main_report raw summary =
     (let out = (if \<not> raw
                 then [Println ''========== Summary ==========='',
                       Println ''Scores (lower is better)'']
                 else [])
      in case main_rows raw summary [] out of
           (table, out) \<Rightarrow>
             if raw then
               (if 0 < length summary
                then Inr (out @ [Printf_Recommendation (Res (summary ! 0))])
                else Inl index_out_of_range)
             else
               (if 0 < length summary
                then Inr (out @ [table_Render table,
                                 Printf_You_should_probably_use (Res (summary ! 0))])
                else Inl index_out_of_range))"

text \<open>Reading the printed items back: the ranking rows in print order, and the recommendation.\<close>

fun printed_rows :: "printed list \<Rightarrow> (string \<times> float64) list" where
  "printed_rows [] = []"
| "printed_rows (Printf_Score r s # out) = (r, s) # printed_rows out"
| "printed_rows (table_Render table # out) = table @ printed_rows out"
| "printed_rows (other # out) = printed_rows out"

fun printed_recommendation :: "printed list \<Rightarrow> string list" where
  "printed_recommendation [] = []"
| "printed_recommendation (Printf_Recommendation r # out) = r # printed_recommendation out"
| "printed_recommendation (Printf_You_should_probably_use r # out) = r # printed_recommendation out"
| "printed_recommendation (other # out) = printed_recommendation out"

section \<open>Properties of the resolver list\<close>

lemma appendIfMissing_scan_eq:
  "appendIfMissing_scan src rest new = (if new \<in> set rest then src else src @ [new])"
  by (induction rest) auto

lemma appendIfMissing_eq:
  "appendIfMissing src new = (if new \<in> set src then src else src @ [new])"
  by (simp add: appendIfMissing_def appendIfMissing_scan_eq)

lemma set_first_occurrences: "set (first_occurrences xs) = set xs"
  by (induction xs rule: first_occurrences.induct) auto

lemma distinct_first_occurrences: "distinct (first_occurrences xs)"
  by (induction xs rule: first_occurrences.induct) (auto simp: set_first_occurrences)

lemma init_resolvers_eq:
  "init_resolvers defs tmp = defs @ first_occurrences (filter (\<lambda>r. r \<notin> set defs) tmp)"
proof (induction tmp arbitrary: defs)
  case Nil
  show ?case by simp
next
  case (Cons res tmp)
  show ?case
  proof (cases "res \<in> set defs")
    case True
    then show ?thesis by (simp add: appendIfMissing_eq Cons.IH)
  next
    case False
    have "filter (\<lambda>r. r \<notin> set (defs @ [res])) tmp
            = filter (\<lambda>y. y \<noteq> res) (filter (\<lambda>r. r \<notin> set defs) tmp)"
      by (auto intro: filter_cong)
    with False show ?thesis by (simp add: appendIfMissing_eq Cons.IH)
  qed
qed

text \<open>
  Claim C7. Appending an address that the list already holds returns the list as it is, so
  giving an address of the default set as an addition (anywhere among the additions) changes
  neither the size nor the order of the final list. In general the final list is the default
  list in its order, followed by the additions that are not defaults, each once, in the order
  of their first appearance.
\<close>

theorem resolver_list_dedup:
  "(new \<in> set src \<longrightarrow> appendIfMissing src new = src)
   \<and> (new \<notin> set src \<longrightarrow> appendIfMissing src new = src @ [new])
   \<and> (d \<in> set defs \<longrightarrow> init_resolvers defs (xs @ d # ys) = init_resolvers defs (xs @ ys))
   \<and> init_resolvers defs tmp = defs @ first_occurrences (filter (\<lambda>r. r \<notin> set defs) tmp)"
  by (simp add: appendIfMissing_eq init_resolvers_eq)

theorem resolver_list_dedup_witness:
  "''8.8.8.8'' \<in> set [''8.8.8.8'', ''1.1.1.1'']
   \<and> appendIfMissing [''8.8.8.8'', ''1.1.1.1''] ''8.8.8.8'' = [''8.8.8.8'', ''1.1.1.1'']
   \<and> ''9.9.9.9'' \<notin> set [''8.8.8.8'', ''1.1.1.1'']
   \<and> appendIfMissing [''8.8.8.8'', ''1.1.1.1''] ''9.9.9.9'' = [''8.8.8.8'', ''1.1.1.1'', ''9.9.9.9'']
   \<and> init_resolvers [''8.8.8.8'', ''1.1.1.1''] ([''10.0.0.1''] @ ''8.8.8.8'' # [''10.0.0.2''])
       = init_resolvers [''8.8.8.8'', ''1.1.1.1''] ([''10.0.0.1''] @ [''10.0.0.2''])
   \<and> init_resolvers [''8.8.8.8'', ''1.1.1.1''] [''10.0.0.1'', ''1.1.1.1'', ''10.0.0.2'', ''10.0.0.1'']
       = [''8.8.8.8'', ''1.1.1.1'', ''10.0.0.1'', ''10.0.0.2'']"
  using resolver_list_dedup [of "''8.8.8.8''" "[''8.8.8.8'', ''1.1.1.1'']" "''8.8.8.8''"
      "[''8.8.8.8'', ''1.1.1.1'']" "[''10.0.0.1'']" "[''10.0.0.2'']"
      "[''10.0.0.1'', ''1.1.1.1'', ''10.0.0.2'', ''10.0.0.1'']"]
    resolver_list_dedup [of "''9.9.9.9''" "[''8.8.8.8'', ''1.1.1.1'']"]
  by simp

section \<open>Properties of the scorer\<close>

lemma authSl_eq:
  "authSl = [''AWS Route53'', ''Akamai'', ''Azure'', ''CloudFlare'', ''DNSimple'', ''Dyn'',
             ''EasyDNS'', ''GoDaddy'', ''Google'', ''NS1'', ''Ultradns'']"
  by (simp add: authSl_def auths_def)

lemma go_div_Millisecond:
  "go_div a Millisecond = (if 0 \<le> a then a div 1000000 else - ((- a) div 1000000))"
  by (simp add: go_div_def Millisecond_def Nanosecond_def)

lemma go_div_Millisecond_mono:
  assumes "a \<le> b"
  shows "go_div a Millisecond \<le> go_div b Millisecond"
proof -
  consider "0 \<le> a" | "a < 0" "0 \<le> b" | "b < 0" by linarith
  then show ?thesis
  proof cases
    case 1
    with assms show ?thesis by (simp add: go_div_Millisecond zdiv_mono1)
  next
    case 2
    have "0 \<le> (- a) div 1000000" using 2 by (simp add: pos_imp_zdiv_nonneg_iff)
    moreover have "0 \<le> b div 1000000" using 2 by (simp add: pos_imp_zdiv_nonneg_iff)
    ultimately show ?thesis using 2 by (simp add: go_div_Millisecond)
  next
    case 3
    have "(- b) div 1000000 \<le> (- a) div 1000000" using assms by (simp add: zdiv_mono1)
    with 3 assms show ?thesis by (simp add: go_div_Millisecond)
  qed
qed

lemma go_div_Millisecond_add:
  assumes "0 \<le> a" "0 \<le> k"
  shows "go_div (a + k * Millisecond) Millisecond = go_div a Millisecond + k"
proof -
  have nonneg: "0 \<le> a + k * Millisecond"
    using assms by (simp add: Millisecond_def Nanosecond_def)
  have "go_div (a + k * Millisecond) Millisecond = (a + k * Millisecond) div 1000000"
    using nonneg by (simp only: go_div_Millisecond if_True)
  also have "\<dots> = a div 1000000 + k"
    by (simp add: Millisecond_def Nanosecond_def)
  also have "\<dots> = go_div a Millisecond + k"
    using assms by (simp add: go_div_Millisecond)
  finally show ?thesis .
qed

lemma Score_loop_eq:
  "Score_loop res as score = score + (\<Sum>auth\<leftarrow>as. sample_ms (results_at res auth))"
  by (induction as arbitrary: score) (simp_all add: sample_ms_def whole_ms_def Let_def)

lemma Score_eq:
  "Score res = 5 * sample_ms (results_at res ''ResolverHit'')
               + (\<Sum>auth\<leftarrow>authSl. sample_ms (results_at res auth))"
  by (simp add: Score_def Score_loop_eq sample_ms_def whole_ms_def Let_def)

lemma ResolverHit_not_auth: "''ResolverHit'' \<notin> set authSl"
  by (simp add: authSl_eq)

lemma set_authSl: "set authSl = fst ` set auths"
  by (simp add: authSl_def)

lemma distinct_authSl: "distinct authSl"
  by (simp add: authSl_eq)

lemma sorted_authSl: "sorted authSl"
  by (simp add: authSl_def)

lemma results_at_upd:
  "results_at (res(k \<mapsto> r)) k' = (if k' = k then r else results_at res k')"
  by (simp add: results_at_def)

lemma sum_list_agree:
  "(\<And>x. x \<in> set xs \<Longrightarrow> f x = g x) \<Longrightarrow> (\<Sum>x\<leftarrow>xs. f x) = (\<Sum>x\<leftarrow>xs. (g x :: real))"
  by (induction xs) auto

lemma Score_update_ResolverHit:
  "Score (res(''ResolverHit'' \<mapsto> h))
     = 5 * sample_ms h + (\<Sum>auth\<leftarrow>authSl. sample_ms (results_at res auth))"
proof -
  have "(\<Sum>auth\<leftarrow>authSl. sample_ms (results_at (res(''ResolverHit'' \<mapsto> h)) auth))
          = (\<Sum>auth\<leftarrow>authSl. sample_ms (results_at res auth))"
    using ResolverHit_not_auth by (intro sum_list_agree) (auto simp: results_at_upd)
  moreover have "results_at (res(''ResolverHit'' \<mapsto> h)) ''ResolverHit'' = h"
    by (simp add: results_at_upd)
  ultimately show ?thesis by (simp only: Score_eq)
qed

lemma whole_ms_trunc:
  "whole_ms dur = real_of_int (if 0 \<le> dur then \<lfloor>getms dur\<rfloor> else \<lceil>getms dur\<rceil>)"
proof (cases "0 \<le> dur")
  case True
  have "\<lfloor>real_of_int dur / real_of_int 1000000\<rfloor> = dur div 1000000"
    by (rule floor_divide_of_int_eq)
  with True show ?thesis
    by (simp add: whole_ms_def getms_def go_div_Millisecond) (simp add: Millisecond_def Nanosecond_def)
next
  case False
  have "\<lfloor>real_of_int (- dur) / real_of_int 1000000\<rfloor> = (- dur) div 1000000"
    by (rule floor_divide_of_int_eq)
  then have "\<lceil>real_of_int dur / real_of_int 1000000\<rceil> = - ((- dur) div 1000000)"
    by (simp add: ceiling_def)
  with False show ?thesis
    by (simp add: whole_ms_def getms_def go_div_Millisecond) (simp add: Millisecond_def Nanosecond_def)
qed

lemma sample_ms_Ints: "sample_ms r \<in> \<int>"
  by (simp add: sample_ms_def whole_ms_def)

lemma sum_list_Ints: "(\<And>x. x \<in> set xs \<Longrightarrow> f x \<in> \<int>) \<Longrightarrow> (\<Sum>x\<leftarrow>xs. f x) \<in> (\<int> :: real set)"
  by (induction xs) auto

lemma Score_Ints: "Score res \<in> \<int>"
  unfolding Score_eq by (intro Ints_add Ints_mult sum_list_Ints sample_ms_Ints) simp

lemma whole_ms_nonneg: "0 \<le> dur \<Longrightarrow> 0 \<le> whole_ms dur"
  by (simp add: whole_ms_def go_div_Millisecond pos_imp_zdiv_nonneg_iff)

lemma Score_nonneg:
  assumes "\<forall>k \<in> set scored_keys. 0 \<le> mean (results_at res k) \<and> 0 \<le> median (results_at res k)"
  shows "0 \<le> Score res"
proof -
  have each: "0 \<le> sample_ms (results_at res k)" if "k \<in> set scored_keys" for k
    using assms that by (simp add: sample_ms_def whole_ms_nonneg)
  have "0 \<le> (\<Sum>auth\<leftarrow>authSl. sample_ms (results_at res auth))"
    by (rule sum_list_nonneg) (auto simp: scored_keys_def intro: each)
  moreover have "0 \<le> sample_ms (results_at res ''ResolverHit'')"
    by (rule each) (simp add: scored_keys_def)
  ultimately show ?thesis by (simp add: Score_eq)
qed

lemma Score_same_whole_ms:
  assumes "same_whole_ms res res'"
  shows "Score res = Score res'"
proof -
  have each: "sample_ms (results_at res k) = sample_ms (results_at res' k)"
    if "k \<in> set scored_keys" for k
    using assms that by (simp add: same_whole_ms_def list_all_iff sample_ms_def whole_ms_def)
  have "(\<Sum>auth\<leftarrow>authSl. sample_ms (results_at res auth))
          = (\<Sum>auth\<leftarrow>authSl. sample_ms (results_at res' auth))"
    by (intro sum_list_agree each) (simp add: scored_keys_def)
  moreover have "sample_ms (results_at res ''ResolverHit'') = sample_ms (results_at res' ''ResolverHit'')"
    by (rule each) (simp add: scored_keys_def)
  ultimately show ?thesis by (simp only: Score_eq)
qed

lemma Score_failratio:
  "Score (\<lambda>k. map_option (\<lambda>r. r\<lparr>failratio := f k r\<rparr>) (res k)) = Score res"
proof -
  have "sample_ms (results_at (\<lambda>k. map_option (\<lambda>r. r\<lparr>failratio := f k r\<rparr>) (res k)) k)
          = sample_ms (results_at res k)" for k
    by (cases "res k") (simp_all add: results_at_def sample_ms_def)
  then show ?thesis by (simp add: Score_eq)
qed

lemma go_div_Millisecond_abs: "\<bar>go_div a Millisecond\<bar> = \<bar>a\<bar> div 1000000"
proof (cases "0 \<le> a")
  case True
  then have "0 \<le> a div 1000000" by (simp add: pos_imp_zdiv_nonneg_iff)
  with True show ?thesis by (simp add: go_div_Millisecond)
next
  case False
  then have "0 \<le> (- a) div 1000000" by (simp add: pos_imp_zdiv_nonneg_iff)
  with False show ?thesis by (simp add: go_div_Millisecond)
qed

lemma whole_ms_int64_bound:
  assumes "\<bar>dur\<bar> \<le> 2 ^ 63"
  shows "\<bar>whole_ms dur\<bar> \<le> 9223372036854"
proof -
  have "\<bar>dur\<bar> div 1000000 \<le> 2 ^ 63 div 1000000"
    using assms by (rule zdiv_mono1) simp
  then have "\<bar>go_div dur Millisecond\<bar> \<le> 9223372036854"
    by (simp add: go_div_Millisecond_abs)
  then have "real_of_int \<bar>go_div dur Millisecond\<bar> \<le> real_of_int 9223372036854"
    by (simp only: of_int_le_iff)
  then show ?thesis by (simp add: whole_ms_def)
qed

lemma sum_list_abs_bound:
  "(\<And>x. x \<in> set xs \<Longrightarrow> \<bar>f x\<bar> \<le> c) \<Longrightarrow> \<bar>\<Sum>x\<leftarrow>xs. (f x :: real)\<bar> \<le> real (length xs) * c"
proof (induction xs)
  case Nil
  show ?case by simp
next
  case (Cons a xs)
  have "\<bar>f a\<bar> \<le> c" by (rule Cons.prems) simp
  moreover have "\<bar>\<Sum>x\<leftarrow>xs. f x\<bar> \<le> real (length xs) * c"
    by (rule Cons.IH) (simp add: Cons.prems)
  ultimately show ?case by (simp add: algebra_simps)
qed

text \<open>
  With durations in the range of \<open>int64\<close>, the score and every partial sum leading to it
  is a whole number of magnitude below \<open>2 ^ 53\<close>: \<open>float64\<close> represents these exactly,
  so the scorer's floating-point additions do not round.
\<close>

lemma Score_exact_range:
  assumes "\<forall>k \<in> set scored_keys. \<bar>mean (results_at res k)\<bar> \<le> 2 ^ 63
                                 \<and> \<bar>median (results_at res k)\<bar> \<le> 2 ^ 63"
  shows "\<bar>Score res\<bar> < 2 ^ 53"
proof -
  have each: "\<bar>sample_ms (results_at res k)\<bar> \<le> 18446744073708" if "k \<in> set scored_keys" for k
  proof -
    have "\<bar>whole_ms (mean (results_at res k))\<bar> \<le> 9223372036854"
      and "\<bar>whole_ms (median (results_at res k))\<bar> \<le> 9223372036854"
      using assms that by (simp_all add: whole_ms_int64_bound)
    then show ?thesis by (simp add: sample_ms_def)
  qed
  have "\<bar>\<Sum>auth\<leftarrow>authSl. sample_ms (results_at res auth)\<bar> \<le> real (length authSl) * 18446744073708"
    by (rule sum_list_abs_bound) (simp add: each scored_keys_def)
  moreover have "\<bar>sample_ms (results_at res ''ResolverHit'')\<bar> \<le> 18446744073708"
    by (rule each) (simp add: scored_keys_def)
  moreover have "length authSl = 11" by (simp add: authSl_eq)
  ultimately show ?thesis by (simp add: Score_eq)
qed

lemma whole_ms_getms_bounds:
  assumes "0 \<le> dur"
  shows "whole_ms dur \<le> getms dur" and "getms dur < whole_ms dur + 1"
proof -
  have "whole_ms dur = real_of_int \<lfloor>getms dur\<rfloor>"
    using assms by (simp add: whole_ms_trunc)
  then show "whole_ms dur \<le> getms dur" and "getms dur < whole_ms dur + 1"
    by linarith+
qed

lemma whole_ms_exact:
  assumes "Millisecond dvd dur"
  shows "whole_ms dur = getms dur"
proof -
  from assms obtain k where k: "dur = Millisecond * k" ..
  have "getms dur = real_of_int k"
    by (simp add: k getms_def Millisecond_def Nanosecond_def)
  then show ?thesis by (simp add: whole_ms_trunc)
qed

lemma Score_whole_ms_bundle:
  assumes "whole_ms_bundle res"
  shows "Score res = Score_in_exact_ms res"
proof -
  have each: "sample_ms (results_at res k)
      = getms (mean (results_at res k)) + getms (median (results_at res k))"
    if "k \<in> set scored_keys" for k
    using assms that by (simp add: whole_ms_bundle_def list_all_iff sample_ms_def whole_ms_exact)
  have "(\<Sum>auth\<leftarrow>authSl. sample_ms (results_at res auth))
          = (\<Sum>auth\<leftarrow>authSl. getms (mean (results_at res auth))
                              + getms (median (results_at res auth)))"
    by (intro sum_list_agree each) (simp add: scored_keys_def)
  moreover have "sample_ms (results_at res ''ResolverHit'')
      = getms (mean (results_at res ''ResolverHit''))
        + getms (median (results_at res ''ResolverHit''))"
    by (rule each) (simp add: scored_keys_def)
  ultimately show ?thesis by (simp only: Score_eq Score_in_exact_ms_def)
qed

text \<open>
  Claim C2 as stated fails: for a bundle whose \<open>ResolverHit\<close> mean and median are both 10.5
  milliseconds (and which has no other entry) the score is 100, where five times the sum of
  mean and median in milliseconds is 105.
\<close>

theorem Score_exact_milliseconds_counterexample:
  "getms 10500000 = 10.5
   \<and> Score [''ResolverHit'' \<mapsto> \<lparr>mean = 10500000, median = 10500000, failratio = 0\<rparr>] = 100
   \<and> Score_in_exact_ms
         [''ResolverHit'' \<mapsto> \<lparr>mean = 10500000, median = 10500000, failratio = 0\<rparr>] = 105"
proof -
  have "getms 10500000 = 10.5" "getms 0 = 0"
    by (simp_all add: getms_def Millisecond_def Nanosecond_def)
  moreover have "whole_ms 10500000 = 10" "whole_ms 0 = 0"
    by (simp_all add: whole_ms_def go_div_Millisecond)
  ultimately show ?thesis
    by (simp add: Score_eq Score_in_exact_ms_def sample_ms_def authSl_eq results_at_def)
qed

text \<open>
  Claim C2, amended. The score of a bundle is five times the sum of the mean and the median
  of the \<open>ResolverHit\<close> sample, each cut to whole milliseconds, plus the sum of mean and median,
  each cut to whole milliseconds, of the sample of every configured authoritative operator:
  \<open>authSl\<close> holds each key of \<open>auths\<close> exactly once. The whole milliseconds of a duration are
  its exact milliseconds when these are a whole number, and the exact milliseconds with the
  fraction dropped otherwise; so for a bundle of whole-millisecond means and medians the score
  is the sum over the exact milliseconds. Changing the failure ratios of a bundle in any way
  leaves its score as it is.
\<close>

theorem Score_formula:
  "Score res
     = 5 * (whole_ms (mean (results_at res ''ResolverHit''))
            + whole_ms (median (results_at res ''ResolverHit'')))
       + (\<Sum>auth\<leftarrow>authSl. whole_ms (mean (results_at res auth))
                           + whole_ms (median (results_at res auth)))
   \<and> distinct authSl \<and> set authSl = fst ` set auths
   \<and> Score (\<lambda>k. map_option (\<lambda>r. r\<lparr>failratio := f k r\<rparr>) (res k)) = Score res
   \<and> (Millisecond dvd dur \<longrightarrow> whole_ms dur = getms dur)
   \<and> (0 \<le> dur \<longrightarrow> whole_ms dur \<le> getms dur \<and> getms dur < whole_ms dur + 1)
   \<and> whole_ms dur = real_of_int (if 0 \<le> dur then \<lfloor>getms dur\<rfloor> else \<lceil>getms dur\<rceil>)
   \<and> (whole_ms_bundle res \<longrightarrow> Score res = Score_in_exact_ms res)"
proof (intro conjI impI)
  show "Score res
     = 5 * (whole_ms (mean (results_at res ''ResolverHit''))
            + whole_ms (median (results_at res ''ResolverHit'')))
       + (\<Sum>auth\<leftarrow>authSl. whole_ms (mean (results_at res auth))
                           + whole_ms (median (results_at res auth)))"
    using Score_eq [of res] by (simp only: sample_ms_def)
  show "distinct authSl" by (rule distinct_authSl)
  show "set authSl = fst ` set auths" by (rule set_authSl)
  show "Score (\<lambda>k. map_option (\<lambda>r. r\<lparr>failratio := f k r\<rparr>) (res k)) = Score res"
    by (rule Score_failratio)
  show "whole_ms dur = getms dur" if "Millisecond dvd dur"
    using that by (rule whole_ms_exact)
  show "whole_ms dur \<le> getms dur" if "0 \<le> dur"
    using that by (rule whole_ms_getms_bounds)
  show "getms dur < whole_ms dur + 1" if "0 \<le> dur"
    using that by (rule whole_ms_getms_bounds)
  show "whole_ms dur = real_of_int (if 0 \<le> dur then \<lfloor>getms dur\<rfloor> else \<lceil>getms dur\<rceil>)"
    by (rule whole_ms_trunc)
  show "Score res = Score_in_exact_ms res" if "whole_ms_bundle res"
    using that by (rule Score_whole_ms_bundle)
qed

theorem Score_formula_witness:
  "Millisecond dvd 10000000 \<and> (0::int) \<le> 10500000
   \<and> whole_ms 10000000 = getms 10000000
   \<and> whole_ms 10500000 \<le> getms 10500000 \<and> getms 10500000 < whole_ms 10500000 + 1
   \<and> whole_ms_bundle [''ResolverHit'' \<mapsto> \<lparr>mean = 10000000, median = 10000000, failratio = 0\<rparr>,
             ''Google'' \<mapsto> \<lparr>mean = 30000000, median = 25000000, failratio = 1 / 15\<rparr>]
   \<and> Score [''ResolverHit'' \<mapsto> \<lparr>mean = 10000000, median = 10000000, failratio = 0\<rparr>,
             ''Google'' \<mapsto> \<lparr>mean = 30000000, median = 25000000, failratio = 1 / 15\<rparr>]
       = Score_in_exact_ms
            [''ResolverHit'' \<mapsto> \<lparr>mean = 10000000, median = 10000000, failratio = 0\<rparr>,
             ''Google'' \<mapsto> \<lparr>mean = 30000000, median = 25000000, failratio = 1 / 15\<rparr>]
   \<and> Score [''ResolverHit'' \<mapsto> \<lparr>mean = 10000000, median = 10000000, failratio = 0\<rparr>,
             ''Google'' \<mapsto> \<lparr>mean = 30000000, median = 25000000, failratio = 1 / 15\<rparr>] = 155
   \<and> Score [''ResolverHit'' \<mapsto> \<lparr>mean = 10500000, median = 10999999, failratio = 0\<rparr>,
             ''Google'' \<mapsto> \<lparr>mean = 30700000, median = 25000001, failratio = 1 / 15\<rparr>] = 155"
proof -
  have d: "Millisecond dvd 10000000" by (simp add: Millisecond_def Nanosecond_def)
  have n: "(0::int) \<le> 10500000" by simp
  have ms: "whole_ms 10000000 = 10" "whole_ms 30000000 = 30" "whole_ms 25000000 = 25"
    "whole_ms 0 = 0" "whole_ms 10500000 = 10" "whole_ms 10999999 = 10" "whole_ms 30700000 = 30"
    "whole_ms 25000001 = 25"
    by (simp_all add: whole_ms_def go_div_Millisecond)
  have whole: "whole_ms_bundle
      [''ResolverHit'' \<mapsto> \<lparr>mean = 10000000, median = 10000000, failratio = 0\<rparr>,
       ''Google'' \<mapsto> \<lparr>mean = 30000000, median = 25000000, failratio = 1 / 15\<rparr>]"
    by (simp add: whole_ms_bundle_def scored_keys_def authSl_eq results_at_def
        Millisecond_def Nanosecond_def)
  note f1 = Score_formula [of "[''ResolverHit'' \<mapsto> \<lparr>mean = 10000000, median = 10000000, failratio = 0\<rparr>,
             ''Google'' \<mapsto> \<lparr>mean = 30000000, median = 25000000, failratio = 1 / 15\<rparr>]"
      _ 10000000]
  note f2 = Score_formula [of "[''ResolverHit'' \<mapsto> \<lparr>mean = 10500000, median = 10999999, failratio = 0\<rparr>,
             ''Google'' \<mapsto> \<lparr>mean = 30700000, median = 25000001, failratio = 1 / 15\<rparr>]"
      _ 10500000]
  have c1: "whole_ms 10000000 = getms 10000000"
    using f1 d by blast
  have c2: "whole_ms 10500000 \<le> getms 10500000 \<and> getms 10500000 < whole_ms 10500000 + 1"
    using f2 n by blast
  have c3: "Score [''ResolverHit'' \<mapsto> \<lparr>mean = 10000000, median = 10000000, failratio = 0\<rparr>,
             ''Google'' \<mapsto> \<lparr>mean = 30000000, median = 25000000, failratio = 1 / 15\<rparr>]
       = Score_in_exact_ms
            [''ResolverHit'' \<mapsto> \<lparr>mean = 10000000, median = 10000000, failratio = 0\<rparr>,
             ''Google'' \<mapsto> \<lparr>mean = 30000000, median = 25000000, failratio = 1 / 15\<rparr>]"
    using f1 whole by blast
  have c4: "Score [''ResolverHit'' \<mapsto> \<lparr>mean = 10000000, median = 10000000, failratio = 0\<rparr>,
             ''Google'' \<mapsto> \<lparr>mean = 30000000, median = 25000000, failratio = 1 / 15\<rparr>] = 155"
    using f1 [THEN conjunct1] by (simp add: authSl_eq results_at_def ms)
  have c5: "Score [''ResolverHit'' \<mapsto> \<lparr>mean = 10500000, median = 10999999, failratio = 0\<rparr>,
             ''Google'' \<mapsto> \<lparr>mean = 30700000, median = 25000001, failratio = 1 / 15\<rparr>] = 155"
    using f2 [THEN conjunct1] by (simp add: authSl_eq results_at_def ms)
  show ?thesis using d n c1 c2 whole c3 c4 c5 by (intro conjI) simp_all
qed

text \<open>
  Claim C3 as stated fails: raising the \<open>ResolverHit\<close> mean from 0 by the positive duration
  of 500 microseconds does not raise the score.
\<close>

theorem Score_submillisecond_increase_counterexample:
  "(0::int) < 500000
   \<and> \<not> Score [''ResolverHit'' \<mapsto> \<lparr>mean = 0, median = 0, failratio = 0\<rparr>]
        < Score [''ResolverHit'' \<mapsto> \<lparr>mean = 0 + 500000, median = 0, failratio = 0\<rparr>]"
  by (simp add: Score_update_ResolverHit sample_ms_def whole_ms_def go_div_Millisecond)

text \<open>
  Claim C3, amended. With every other sample of the bundle fixed, raising the \<open>ResolverHit\<close>
  mean or median by a positive duration never lowers the score, and changes it by exactly
  five times the change of the whole milliseconds of that duration. When the mean or median
  is not negative and is raised by a whole number \<open>k\<close> of milliseconds, the score rises
  strictly, by exactly \<open>5 * k\<close>.
\<close>

theorem Score_ResolverHit_increase:
  assumes "res ''ResolverHit'' = Some hit" and "0 < delta"
  shows "Score (res(''ResolverHit'' \<mapsto> hit\<lparr>mean := mean hit + delta\<rparr>)) - Score res
           = 5 * (whole_ms (mean hit + delta) - whole_ms (mean hit))
         \<and> Score (res(''ResolverHit'' \<mapsto> hit\<lparr>median := median hit + delta\<rparr>)) - Score res
           = 5 * (whole_ms (median hit + delta) - whole_ms (median hit))
         \<and> Score res \<le> Score (res(''ResolverHit'' \<mapsto> hit\<lparr>mean := mean hit + delta\<rparr>))
         \<and> Score res \<le> Score (res(''ResolverHit'' \<mapsto> hit\<lparr>median := median hit + delta\<rparr>))
         \<and> (0 \<le> mean hit \<and> delta = k * Millisecond \<longrightarrow>
              Score (res(''ResolverHit'' \<mapsto> hit\<lparr>mean := mean hit + delta\<rparr>))
                = Score res + 5 * real_of_int k
              \<and> Score res < Score (res(''ResolverHit'' \<mapsto> hit\<lparr>mean := mean hit + delta\<rparr>)))
         \<and> (0 \<le> median hit \<and> delta = k * Millisecond \<longrightarrow>
              Score (res(''ResolverHit'' \<mapsto> hit\<lparr>median := median hit + delta\<rparr>))
                = Score res + 5 * real_of_int k
              \<and> Score res < Score (res(''ResolverHit'' \<mapsto> hit\<lparr>median := median hit + delta\<rparr>)))"
proof -
  have old: "Score res = 5 * sample_ms hit + (\<Sum>auth\<leftarrow>authSl. sample_ms (results_at res auth))"
    using assms(1) by (simp add: Score_eq results_at_def)
  have mono: "whole_ms d \<le> whole_ms (d + delta)" for d
    using assms(2) by (simp add: whole_ms_def go_div_Millisecond_mono)
  have whole: "whole_ms (d + delta) = whole_ms d + real_of_int k \<and> 0 < k"
    if "0 \<le> d" "delta = k * Millisecond" for d
  proof -
    have "0 < k" using assms(2) that(2) by (simp add: Millisecond_def Nanosecond_def)
    then show ?thesis using that by (simp add: whole_ms_def go_div_Millisecond_add)
  qed
  show ?thesis
    using mono [of "mean hit"] mono [of "median hit"] whole [of "mean hit"] whole [of "median hit"]
    by (simp add: old Score_update_ResolverHit sample_ms_def)
qed

theorem Score_ResolverHit_increase_witness:
  "[''ResolverHit'' \<mapsto> \<lparr>mean = 10000000, median = 10000000, failratio = 0\<rparr>] ''ResolverHit''
     = Some \<lparr>mean = 10000000, median = 10000000, failratio = 0\<rparr>
   \<and> (0::int) < 2000000 \<and> (0::int) \<le> 10000000 \<and> (2000000::int) = 2 * Millisecond
   \<and> Score [''ResolverHit'' \<mapsto> \<lparr>mean = 12000000, median = 10000000, failratio = 0\<rparr>]
       = Score [''ResolverHit'' \<mapsto> \<lparr>mean = 10000000, median = 10000000, failratio = 0\<rparr>] + 10
   \<and> Score [''ResolverHit'' \<mapsto> \<lparr>mean = 10000000, median = 12000000, failratio = 0\<rparr>]
       = Score [''ResolverHit'' \<mapsto> \<lparr>mean = 10000000, median = 10000000, failratio = 0\<rparr>] + 10"
  using Score_ResolverHit_increase
    [of "[''ResolverHit'' \<mapsto> \<lparr>mean = 10000000, median = 10000000, failratio = 0\<rparr>]"
        "\<lparr>mean = 10000000, median = 10000000, failratio = 0\<rparr>" 2000000 2]
  by (simp add: Millisecond_def Nanosecond_def)

text \<open>
  Claim C10 as stated fails: two bundles whose \<open>ResolverHit\<close> means are one nanosecond apart,
  and equal otherwise, can have different scores.
\<close>

theorem Score_sub_ms_apart_counterexample:
  "sub_ms_apart [''ResolverHit'' \<mapsto> \<lparr>mean = 999999, median = 0, failratio = 0\<rparr>]
                [''ResolverHit'' \<mapsto> \<lparr>mean = 1000000, median = 0, failratio = 0\<rparr>]
   \<and> Score [''ResolverHit'' \<mapsto> \<lparr>mean = 999999, median = 0, failratio = 0\<rparr>]
       \<noteq> Score [''ResolverHit'' \<mapsto> \<lparr>mean = 1000000, median = 0, failratio = 0\<rparr>]"
  by (simp add: sub_ms_apart_def scored_keys_def authSl_eq results_at_def
      Score_update_ResolverHit sample_ms_def whole_ms_def go_div_Millisecond)
    (simp add: Millisecond_def Nanosecond_def)

text \<open>
  Claim C10, amended. The scorer's milliseconds of a duration are the exact milliseconds
  with the fraction dropped, so every score is a whole number, not negative when no mean or
  median of the bundle is negative; and two bundles whose corresponding means and medians
  have the same whole milliseconds have equal scores.
\<close>

theorem Score_whole_number:
  "whole_ms dur = real_of_int (if 0 \<le> dur then \<lfloor>getms dur\<rfloor> else \<lceil>getms dur\<rceil>)
   \<and> Score res \<in> \<int>
   \<and> ((\<forall>k \<in> set scored_keys. 0 \<le> mean (results_at res k) \<and> 0 \<le> median (results_at res k))
        \<longrightarrow> 0 \<le> Score res)
   \<and> (same_whole_ms res res' \<longrightarrow> Score res = Score res')"
  using whole_ms_trunc [of dur] Score_Ints [of res] Score_nonneg [of res]
    Score_same_whole_ms [of res res']
  by blast

theorem Score_whole_number_witness:
  "list_all (\<lambda>k.
      0 \<le> mean (results_at [''ResolverHit'' \<mapsto> \<lparr>mean = 10200000, median = 10900000, failratio = 0\<rparr>] k)
      \<and> 0 \<le> median (results_at [''ResolverHit'' \<mapsto> \<lparr>mean = 10200000, median = 10900000, failratio = 0\<rparr>] k))
     scored_keys
   \<and> same_whole_ms [''ResolverHit'' \<mapsto> \<lparr>mean = 10200000, median = 10900000, failratio = 0\<rparr>]
                    [''ResolverHit'' \<mapsto> \<lparr>mean = 10999999, median = 10000000, failratio = 0\<rparr>]
   \<and> Score [''ResolverHit'' \<mapsto> \<lparr>mean = 10200000, median = 10900000, failratio = 0\<rparr>] \<in> \<int>
   \<and> 0 \<le> Score [''ResolverHit'' \<mapsto> \<lparr>mean = 10200000, median = 10900000, failratio = 0\<rparr>]
   \<and> Score [''ResolverHit'' \<mapsto> \<lparr>mean = 10200000, median = 10900000, failratio = 0\<rparr>]
       = Score [''ResolverHit'' \<mapsto> \<lparr>mean = 10999999, median = 10000000, failratio = 0\<rparr>]"
proof -
  have keys: "\<forall>k \<in> set scored_keys.
      0 \<le> mean (results_at [''ResolverHit'' \<mapsto> \<lparr>mean = 10200000, median = 10900000, failratio = 0\<rparr>] k)
      \<and> 0 \<le> median (results_at [''ResolverHit'' \<mapsto> \<lparr>mean = 10200000, median = 10900000, failratio = 0\<rparr>] k)"
    by (simp add: results_at_def)
  have same: "same_whole_ms [''ResolverHit'' \<mapsto> \<lparr>mean = 10200000, median = 10900000, failratio = 0\<rparr>]
                    [''ResolverHit'' \<mapsto> \<lparr>mean = 10999999, median = 10000000, failratio = 0\<rparr>]"
    by (simp add: same_whole_ms_def scored_keys_def authSl_eq results_at_def go_div_Millisecond)
  show ?thesis
    unfolding list_all_iff
    using keys same
      Score_whole_number [of 0 "[''ResolverHit'' \<mapsto> \<lparr>mean = 10200000, median = 10900000, failratio = 0\<rparr>]"
        "[''ResolverHit'' \<mapsto> \<lparr>mean = 10999999, median = 10000000, failratio = 0\<rparr>]"]
    by blast
qed

section \<open>Properties of the resolver probe\<close>

text \<open>
  The dotted-decimal text of an address determines the address, so the allowlist of texts
  is an allowlist of addresses.
\<close>

lemma digit_nth_inj:
  assumes "n < 10" "m < 10" "''0123456789'' ! n = ''0123456789'' ! m"
  shows "n = m"
proof -
  have "distinct ''0123456789''" by simp
  moreover have "n < length ''0123456789''" "m < length ''0123456789''" using assms by simp_all
  ultimately show ?thesis using assms(3) by (simp only: nth_eq_iff_index_eq)
qed

lemma itoa_nonempty: "itoa n \<noteq> []"
  by (subst itoa.simps) simp

lemma digit_in: "k < 10 \<Longrightarrow> ''0123456789'' ! k \<in> set ''0123456789''"
  by (rule nth_mem) simp

lemma itoa_digits: "set (itoa n) \<subseteq> set ''0123456789''"
proof (induction n rule: itoa.induct)
  case (1 n)
  show ?case
  proof (cases "n < 10")
    case True
    then show ?thesis using digit_in [of n] by (subst itoa.simps) simp
  next
    case False
    have "n mod 10 < 10" by simp
    then have "''0123456789'' ! (n mod 10) \<in> set ''0123456789''" by (rule digit_in)
    with False 1 show ?thesis by (subst itoa.simps) simp
  qed
qed

lemma itoa_no_dot: "CHR ''.'' \<notin> set (itoa n)"
  using itoa_digits [of n] by auto

lemma itoa_inj: "itoa n = itoa m \<Longrightarrow> n = m"
proof (induction n arbitrary: m rule: itoa.induct)
  case (1 n)
  show ?case
  proof (cases "n < 10")
    case n: True
    show ?thesis
    proof (cases "m < 10")
      case True
      with n "1.prems" show ?thesis
        by (subst (asm) itoa.simps, subst (asm) (2) itoa.simps) (simp add: digit_nth_inj)
    next
      case False
      have "itoa m = itoa (m div 10) @ [''0123456789'' ! (m mod 10)]"
        using False by (subst itoa.simps) simp
      moreover have "itoa n = [''0123456789'' ! n]"
        using n by (subst itoa.simps) simp
      ultimately show ?thesis using "1.prems" itoa_nonempty [of "m div 10"] by simp
    qed
  next
    case n: False
    have en: "itoa n = itoa (n div 10) @ [''0123456789'' ! (n mod 10)]"
      using n by (subst itoa.simps) simp
    show ?thesis
    proof (cases "m < 10")
      case True
      then have "itoa m = [''0123456789'' ! m]" by (subst itoa.simps) simp
      with en show ?thesis using "1.prems" itoa_nonempty [of "n div 10"] by simp
    next
      case False
      then have "itoa m = itoa (m div 10) @ [''0123456789'' ! (m mod 10)]"
        by (subst itoa.simps) simp
      with en "1.prems" have a: "itoa (n div 10) = itoa (m div 10)"
        and b: "''0123456789'' ! (n mod 10) = ''0123456789'' ! (m mod 10)"
        by simp_all
      from a have "n div 10 = m div 10" by (rule "1.IH" [OF n])
      moreover have "n mod 10 = m mod 10" using b by (intro digit_nth_inj) simp_all
      ultimately show ?thesis by (metis div_mult_mod_eq)
    qed
  qed
qed

lemma dotted_split:
  assumes "a @ CHR ''.'' # b = c @ CHR ''.'' # d" "CHR ''.'' \<notin> set a" "CHR ''.'' \<notin> set c"
  shows "a = c \<and> b = d"
  using assms
proof (induction a arbitrary: c)
  case Nil
  then show ?case by (cases c) auto
next
  case (Cons x a)
  then show ?case by (cases c) auto
qed

lemma IP_String_inj: "IP_String ip = IP_String ip' \<Longrightarrow> ip = ip'"
proof (cases ip, cases ip')
  fix a b c d a' b' c' d'
  assume eq: "IP_String ip = IP_String ip'" and ip: "ip = IPv4 a b c d" and ip': "ip' = IPv4 a' b' c' d'"
  from eq have e1: "itoa (unat a) @ CHR ''.'' # (itoa (unat b) @ CHR ''.'' # (itoa (unat c) @ CHR ''.'' # itoa (unat d)))
      = itoa (unat a') @ CHR ''.'' # (itoa (unat b') @ CHR ''.'' # (itoa (unat c') @ CHR ''.'' # itoa (unat d')))"
    by (simp add: ip ip')
  from dotted_split [OF e1 itoa_no_dot itoa_no_dot]
  have A: "itoa (unat a) = itoa (unat a')"
    and e2: "itoa (unat b) @ CHR ''.'' # (itoa (unat c) @ CHR ''.'' # itoa (unat d))
      = itoa (unat b') @ CHR ''.'' # (itoa (unat c') @ CHR ''.'' # itoa (unat d'))"
    by simp_all
  from dotted_split [OF e2 itoa_no_dot itoa_no_dot]
  have B: "itoa (unat b) = itoa (unat b')"
    and e3: "itoa (unat c) @ CHR ''.'' # itoa (unat d) = itoa (unat c') @ CHR ''.'' # itoa (unat d')"
    by simp_all
  from dotted_split [OF e3 itoa_no_dot itoa_no_dot]
  have C: "itoa (unat c) = itoa (unat c')" and D: "itoa (unat d) = itoa (unat d')"
    by simp_all
  from A B C D have "a = a'" "b = b'" "c = c'" "d = d'"
    by (auto dest!: itoa_inj simp: word_unat_eq_iff)
  then show "ip = ip'" by (simp add: ip ip')
qed

lemma IP_String_expected:
  "IP_String (IPv4 138 197 54 54) = ''138.197.54.54''"
  "IP_String (IPv4 138 197 53 4) = ''138.197.53.4''"
  by (simp_all add: itoa.simps)

lemma IP_String_eq_iff: "IP_String ip = IP_String ip' \<longleftrightarrow> ip = ip'"
  by (blast dest: IP_String_inj)

lemma expectedanswers_IP:
  "expectedanswers (IP_String ip)
     = (if ip \<in> {IPv4 138 197 54 54, IPv4 138 197 53 4} then Some () else None)"
proof -
  have "expectedanswers (IP_String ip)
          = (if IP_String ip = ''138.197.54.54'' \<or> IP_String ip = ''138.197.53.4''
             then Some () else None)"
    by (simp add: expectedanswers_def)
  also have "\<dots> = (if IP_String ip = IP_String (IPv4 138 197 54 54)
                        \<or> IP_String ip = IP_String (IPv4 138 197 53 4)
                     then Some () else None)"
    by (simp only: IP_String_expected)
  also have "\<dots> = (if ip \<in> {IPv4 138 197 54 54, IPv4 138 197 53 4} then Some () else None)"
    by (simp only: IP_String_eq_iff insert_iff empty_iff simp_thms)
  finally show ?thesis .
qed

lemma failDuration_eq: "failDuration = 10000000000"
  by (simp add: failDuration_def Second_def Millisecond_def Nanosecond_def)

lemma testresolver_eq:
  "testresolver hostname resolver w
     = (probe_result (net w (ncalls w)),
        w\<lparr>ncalls := ncalls w + 1, sent := sent w @ [question hostname resolver]\<rparr>)"
  by (simp add: testresolver_def probe_result_def question_def Let_def
      split: exchange.split RR.split option.split)

lemma probe_result_simps:
  "probe_result (ExchangeError e) = (failDuration, Some (ExchangeErr e))"
  "probe_result (ExchangeReply Answer rtt) =
     (if length Answer \<noteq> 1 then (failDuration, Some (Errorf ''Number of answers is not 1''))
      else case Answer ! 0 of
             dns_A ip \<Rightarrow>
               if ip \<in> {IPv4 138 197 54 54, IPv4 138 197 53 4} then (rtt, None)
               else (failDuration, Some (Errorf ''Got strange answer. Evil hijacking resolver?''))
           | _ \<Rightarrow> (failDuration, Some (Errorf ''Answer is not type A'')))"
  by (simp_all add: probe_result_def testresolver_def Let_def expectedanswers_IP
      split: RR.split)

lemma probe_result_fail: "snd (probe_result x) \<noteq> None \<Longrightarrow> fst (probe_result x) = failDuration"
  by (cases x) (auto simp: probe_result_simps split: if_splits RR.splits)

text \<open>
  Claim C1. What the probe returns is decided by the outcome of its exchange, in this order:
  an error of the exchange (transport error or timeout) is passed on; a reply whose answer
  section does not hold exactly one record fails with "Number of answers is not 1"; a single
  record that is not an \<open>A\<close> record fails with "Answer is not type A"; an \<open>A\<close> record whose
  address is neither 138.197.54.54 nor 138.197.53.4 fails with "Got strange answer. Evil
  hijacking resolver?"; an \<open>A\<close> record with one of these addresses succeeds with the
  measured round-trip time and no error. Every failure carries the fail duration, which is
  ten seconds.
\<close>

theorem testresolver_validation:
  "(net w (ncalls w) = ExchangeError e \<longrightarrow>
      fst (testresolver hostname resolver w) = (failDuration, Some (ExchangeErr e)))
   \<and> (net w (ncalls w) = ExchangeReply Answer rtt \<and> length Answer \<noteq> 1 \<longrightarrow>
      fst (testresolver hostname resolver w)
        = (failDuration, Some (Errorf ''Number of answers is not 1'')))
   \<and> (net w (ncalls w) = ExchangeReply [rr] rtt \<and> (\<forall>a. rr \<noteq> dns_A a) \<longrightarrow>
      fst (testresolver hostname resolver w)
        = (failDuration, Some (Errorf ''Answer is not type A'')))
   \<and> (net w (ncalls w) = ExchangeReply [dns_A ip] rtt
        \<and> ip \<notin> {IPv4 138 197 54 54, IPv4 138 197 53 4} \<longrightarrow>
      fst (testresolver hostname resolver w)
        = (failDuration, Some (Errorf ''Got strange answer. Evil hijacking resolver?'')))
   \<and> (net w (ncalls w) = ExchangeReply [dns_A ip] rtt
        \<and> ip \<in> {IPv4 138 197 54 54, IPv4 138 197 53 4} \<longrightarrow>
      fst (testresolver hostname resolver w) = (rtt, None))
   \<and> (snd (fst (testresolver hostname resolver w)) \<noteq> None \<longrightarrow>
      fst (fst (testresolver hostname resolver w)) = failDuration)
   \<and> failDuration = 10 * 1000000000
   \<and> IP_String (IPv4 138 197 54 54) = ''138.197.54.54''
   \<and> IP_String (IPv4 138 197 53 4) = ''138.197.53.4''
   \<and> dom expectedanswers = {''138.197.54.54'', ''138.197.53.4''}"
proof -
  have "dom expectedanswers = {''138.197.54.54'', ''138.197.53.4''}"
    by (auto simp: expectedanswers_def split: if_splits)
  moreover have "(\<forall>a. rr \<noteq> dns_A a) \<longrightarrow>
      probe_result (ExchangeReply [rr] rtt) = (failDuration, Some (Errorf ''Answer is not type A''))"
    by (cases rr) (simp_all add: probe_result_simps)
  ultimately show ?thesis
    using probe_result_fail [of "net w (ncalls w)"]
    by (simp add: testresolver_eq probe_result_simps failDuration_eq itoa.simps)
qed

theorem testresolver_validation_witness:
  "fst (testresolver ''fixed.turbobytes.net.'' ''8.8.8.8''
          \<lparr>net = (\<lambda>k. ExchangeError ''i/o timeout''), rng = (\<lambda>k. 0), ncalls = 0, nrand = 0,
           sent = []\<rparr>)
     = (failDuration, Some (ExchangeErr ''i/o timeout''))
   \<and> fst (testresolver ''fixed.turbobytes.net.'' ''8.8.8.8''
          \<lparr>net = (\<lambda>k. ExchangeReply [] 7000000), rng = (\<lambda>k. 0), ncalls = 0, nrand = 0,
           sent = []\<rparr>)
     = (failDuration, Some (Errorf ''Number of answers is not 1''))
   \<and> fst (testresolver ''fixed.turbobytes.net.'' ''8.8.8.8''
          \<lparr>net = (\<lambda>k. ExchangeReply [dns_CNAME ''x.'', dns_A (IPv4 138 197 54 54)] 7000000),
           rng = (\<lambda>k. 0), ncalls = 0, nrand = 0, sent = []\<rparr>)
     = (failDuration, Some (Errorf ''Number of answers is not 1''))
   \<and> fst (testresolver ''fixed.turbobytes.net.'' ''8.8.8.8''
          \<lparr>net = (\<lambda>k. ExchangeReply [dns_CNAME ''x.''] 7000000), rng = (\<lambda>k. 0), ncalls = 0,
           nrand = 0, sent = []\<rparr>)
     = (failDuration, Some (Errorf ''Answer is not type A''))
   \<and> fst (testresolver ''fixed.turbobytes.net.'' ''8.8.8.8''
          \<lparr>net = (\<lambda>k. ExchangeReply [dns_A (IPv4 1 2 3 4)] 7000000), rng = (\<lambda>k. 0), ncalls = 0,
           nrand = 0, sent = []\<rparr>)
     = (failDuration, Some (Errorf ''Got strange answer. Evil hijacking resolver?''))
   \<and> fst (testresolver ''fixed.turbobytes.net.'' ''8.8.8.8''
          \<lparr>net = (\<lambda>k. ExchangeReply [dns_A (IPv4 138 197 53 4)] 7000000), rng = (\<lambda>k. 0),
           ncalls = 0, nrand = 0, sent = []\<rparr>)
     = (7000000, None)"
  using
    testresolver_validation [of "\<lparr>net = (\<lambda>k. ExchangeError ''i/o timeout''), rng = (\<lambda>k. 0),
      ncalls = 0, nrand = 0, sent = []\<rparr>" "''i/o timeout''" "''fixed.turbobytes.net.''" "''8.8.8.8''"]
    testresolver_validation [of "\<lparr>net = (\<lambda>k. ExchangeReply [] 7000000), rng = (\<lambda>k. 0),
      ncalls = 0, nrand = 0, sent = []\<rparr>" _ "''fixed.turbobytes.net.''" "''8.8.8.8''" "[]" 7000000]
    testresolver_validation [of "\<lparr>net = (\<lambda>k. ExchangeReply [dns_CNAME ''x.'',
      dns_A (IPv4 138 197 54 54)] 7000000), rng = (\<lambda>k. 0),
      ncalls = 0, nrand = 0, sent = []\<rparr>" _ "''fixed.turbobytes.net.''" "''8.8.8.8''"
      "[dns_CNAME ''x.'', dns_A (IPv4 138 197 54 54)]" 7000000]
    testresolver_validation [of "\<lparr>net = (\<lambda>k. ExchangeReply [dns_CNAME ''x.''] 7000000),
      rng = (\<lambda>k. 0), ncalls = 0, nrand = 0, sent = []\<rparr>" _ "''fixed.turbobytes.net.''"
      "''8.8.8.8''" _ 7000000 "dns_CNAME ''x.''"]
    testresolver_validation [of "\<lparr>net = (\<lambda>k. ExchangeReply [dns_A (IPv4 1 2 3 4)] 7000000),
      rng = (\<lambda>k. 0), ncalls = 0, nrand = 0, sent = []\<rparr>" _ "''fixed.turbobytes.net.''"
      "''8.8.8.8''" _ 7000000 _ "IPv4 1 2 3 4"]
    testresolver_validation [of "\<lparr>net = (\<lambda>k. ExchangeReply [dns_A (IPv4 138 197 53 4)] 7000000),
      rng = (\<lambda>k. 0), ncalls = 0, nrand = 0, sent = []\<rparr>" _ "''fixed.turbobytes.net.''"
      "''8.8.8.8''" _ 7000000 _ "IPv4 138 197 53 4"]
  by simp

section \<open>Properties of the sample aggregator\<close>

lemma rand_Intn_eq:
  "rand_Intn n w = (rng w (nrand w) mod n, w\<lparr>nrand := nrand w + 1\<rparr>)"
  by (simp add: rand_Intn_def)

lemma rand_label_Suc:
  "rand_label w off (Suc n)
     = (letterRunes ! (rng w off mod length letterRunes)) # rand_label w (Suc off) n"
  by (simp add: rand_label_def map_upt_Suc del: upt_Suc)

lemma randStringRunes_loop_eq:
  "length b = i + k \<Longrightarrow>
   randStringRunes_loop k i b w
     = (take i b @ rand_label w (nrand w) k, w\<lparr>nrand := nrand w + k\<rparr>)"
proof (induction k arbitrary: i b w)
  case 0
  then show ?case by (simp add: rand_label_def)
next
  case (Suc k)
  let ?c = "letterRunes ! (rng w (nrand w) mod length letterRunes)"
  let ?w = "w\<lparr>nrand := nrand w + 1\<rparr>"
  have len: "length (b[i := ?c]) = (i + 1) + k" using Suc.prems by simp
  have "randStringRunes_loop (Suc k) i b w = randStringRunes_loop k (i + 1) (b[i := ?c]) ?w"
    by (simp add: rand_Intn_eq)
  also have "\<dots> = (take (i + 1) (b[i := ?c]) @ rand_label ?w (nrand ?w) k,
                    ?w\<lparr>nrand := nrand ?w + k\<rparr>)"
    by (rule Suc.IH [OF len])
  also have "take (i + 1) (b[i := ?c]) = take i b @ [?c]"
    using Suc.prems by (simp add: take_Suc_conv_app_nth)
  also have "rand_label ?w (nrand ?w) k = rand_label w (Suc (nrand w)) k"
    by (simp add: rand_label_def)
  finally show ?case by (simp add: rand_label_Suc)
qed

lemma randStringRunes_eq:
  "randStringRunes n w = (rand_label w (nrand w) n, w\<lparr>nrand := nrand w + n\<rparr>)"
  by (simp add: randStringRunes_def randStringRunes_loop_eq)

lemma length_rand_label: "length (rand_label w off n) = n"
  by (simp add: rand_label_def)

lemma set_rand_label: "set (rand_label w off n) \<subseteq> set letterRunes"
proof -
  have "rng w (off + j) mod length letterRunes < length letterRunes" for j
    by (simp add: letterRunes_def)
  then show ?thesis by (auto simp: rand_label_def)
qed

text \<open>
  The loop, started at \<open>i\<close> with \<open>n\<close> iterations left: it appends the durations of the next
  \<open>n\<close> trials, counts their failures, and leaves the world with \<open>n\<close> more exchanges made and
  \<open>n\<close> more questions logged.
\<close>

lemma runtests_loop_eq:
  "i + n = testrep \<Longrightarrow>
   runtests_loop i host res rndSuffix vals fails w
     = ((vals @ map (\<lambda>k. fst (trial w k)) [0..<n],
         fails + length (filter (\<lambda>k. snd (trial w k) \<noteq> None) [0..<n])),
        w\<lparr>ncalls := ncalls w + n,
          nrand := nrand w + (if rndSuffix then 15 * n else 0),
          sent := sent w @ map (\<lambda>k. question (trial_hostname host rndSuffix w k) res) [0..<n]\<rparr>)"
proof (induction n arbitrary: i vals fails w)
  case 0
  then have "\<not> i < testrep" by simp
  then show ?case by (subst runtests_loop.simps) simp
next
  case (Suc n)
  then have i: "i < testrep" and next_i: "(i + 1) + n = testrep" by simp_all
  let ?hostname = "trial_hostname host rndSuffix w 0"
  let ?w1 = "w\<lparr>nrand := nrand w + (if rndSuffix then 15 else 0)\<rparr>"
  let ?w2 = "?w1\<lparr>ncalls := ncalls w + 1, sent := sent w @ [question ?hostname res]\<rparr>"
  have name: "(if rndSuffix
               then (case randStringRunes 15 w of (s, w1) \<Rightarrow> (s @ ''.'' @ host, w1))
               else (host, w)) = (?hostname, ?w1)"
    by (simp add: randStringRunes_eq trial_hostname_def)
  have probe: "testresolver ?hostname res ?w1 = (trial w 0, ?w2)"
    by (simp add: testresolver_eq trial_def)
  have step: "runtests_loop i host res rndSuffix vals fails w
      = runtests_loop (i + 1) host res rndSuffix (vals @ [fst (trial w 0)])
          (if snd (trial w 0) \<noteq> None then fails + 1 else fails) ?w2"
    using i by (subst runtests_loop.simps) (simp only: name probe if_True prod.case, simp only: split_beta)
  have filter_Suc: "length (filter P [0..<Suc n])
      = (if P 0 then 1 else 0) + length (filter (\<lambda>k. P (Suc k)) [0..<n])" for P
  proof -
    have "[0..<Suc n] = 0 # map Suc [0..<n]"
      by (simp add: upt_conv_Cons map_Suc_upt del: upt_Suc)
    then show ?thesis by (simp add: filter_map comp_def del: upt_Suc)
  qed
  show ?case
    unfolding step Suc.IH [OF next_i]
    by (simp add: trial_def trial_hostname_def rand_label_def map_upt_Suc filter_Suc add.assoc
        del: upt_Suc)
qed

lemma length_trials: "length (trials w) = testrep"
  by (simp add: trials_def)

lemma runtests_eq:
  "runtests host res rndSuffix w
     = (\<lparr>mean = Duration_of_float64 (stats_Mean (map real_of_int (map fst (trials w)))),
         median = Duration_of_float64 (stats_Median (map real_of_int (map fst (trials w)))),
         failratio = real (length (filter (\<lambda>outcome. snd outcome \<noteq> None) (trials w)))
                       / real testrep\<rparr>,
        w\<lparr>ncalls := ncalls w + testrep,
          nrand := nrand w + (if rndSuffix then 15 * testrep else 0),
          sent := sent w
                    @ map (\<lambda>k. question (trial_hostname host rndSuffix w k) res) [0..<testrep]\<rparr>)"
proof -
  have "length (filter (\<lambda>k. snd (trial w k) \<noteq> None) [0..<testrep])
          = length (filter (\<lambda>outcome. snd outcome \<noteq> None) (trials w))"
    by (simp add: trials_def filter_map comp_def)
  moreover have "map (\<lambda>k. fst (trial w k)) [0..<testrep] = map fst (trials w)"
    by (simp add: trials_def)
  ultimately show ?thesis
    by (simp add: runtests_def runtests_loop_eq [of 0 testrep] Let_def)
qed

lemma Duration_of_float64_int: "Duration_of_float64 (Some (real_of_int d)) = d"
  by (simp add: Duration_of_float64_def)

lemma sum_list_real_of_int: "sum_list (map real_of_int vals) = real_of_int (sum_list vals)"
  by (induction vals) simp_all

lemma stats_Mean_eq:
  "vals \<noteq> [] \<Longrightarrow>
   stats_Mean (map real_of_int vals) = Some (real_of_int (sum_list vals) / real (length vals))"
  by (simp add: stats_Mean_def sum_list_real_of_int)

lemma sort_map_real_of_int: "sort (map real_of_int vals) = map real_of_int (sort vals)"
proof (rule properties_for_sort)
  show "mset (map real_of_int (sort vals)) = mset (map real_of_int vals)"
    by simp
  show "sorted (map real_of_int (sort vals))"
    by (simp add: sorted_map)
qed

lemma stats_Median_odd:
  assumes "odd (length vals)"
  shows "stats_Median (map real_of_int vals)
           = Some (real_of_int (sort vals ! (length vals div 2)))"
proof -
  have pos: "length vals div 2 < length vals"
    using assms by (cases vals) auto
  have "length vals mod 2 \<noteq> 0" "length vals \<noteq> 0"
    using assms by (auto simp: odd_iff_mod_2_eq_one)
  moreover have "map real_of_int (sort vals) ! (length vals div 2)
                   = real_of_int (sort vals ! (length vals div 2))"
    using pos by (intro nth_map) simp
  ultimately show ?thesis
    by (simp only: stats_Median_def Let_def sort_map_real_of_int length_map length_sort if_False)
qed

lemma length_filter_sort:
  "length (filter P (sort xs)) = length (filter P xs)"
proof -
  have "mset (filter P (sort xs)) = mset (filter P xs)"
    by (simp only: mset_filter mset_sort)
  then show ?thesis by (rule mset_eq_length)
qed

text \<open>
  The middle element of the sorted values is one of the values, and more than half of the
  values are at most it, and more than half at least it.
\<close>

lemma median_position:
  fixes xs :: "int list"
  assumes "odd (length xs)"
  shows "sort xs ! (length xs div 2) \<in> set xs"
    and "length xs div 2 < length (filter (\<lambda>v. v \<le> sort xs ! (length xs div 2)) xs)"
    and "length xs div 2 < length (filter (\<lambda>v. sort xs ! (length xs div 2) \<le> v) xs)"
proof -
  let ?h = "length xs div 2"
  let ?ys = "sort xs"
  let ?m = "?ys ! ?h"
  have h: "?h < length ?ys" using assms by (cases xs) auto
  have len: "length ?ys = Suc (2 * ?h)" using assms by (auto elim: oddE)
  from h have "?m \<in> set ?ys" by (rule nth_mem)
  then show "?m \<in> set xs" by simp
  have low: "\<forall>v \<in> set (take (Suc ?h) ?ys). v \<le> ?m"
  proof
    fix v assume "v \<in> set (take (Suc ?h) ?ys)"
    then obtain i where "i < Suc ?h" "i < length ?ys" "v = ?ys ! i"
      by (auto simp: in_set_conv_nth)
    then show "v \<le> ?m" using h by (auto intro: sorted_nth_mono)
  qed
  have high: "\<forall>v \<in> set (drop ?h ?ys). ?m \<le> v"
  proof
    fix v assume "v \<in> set (drop ?h ?ys)"
    then obtain i where "i < length ?ys - ?h" "v = ?ys ! (?h + i)"
      by (auto simp: in_set_conv_nth)
    moreover from this have "?h + i < length ?ys" by simp
    ultimately show "?m \<le> v" by (auto intro: sorted_nth_mono)
  qed
  have "length (filter (\<lambda>v. v \<le> ?m) ?ys)
          = length (filter (\<lambda>v. v \<le> ?m) (take (Suc ?h) ?ys))
            + length (filter (\<lambda>v. v \<le> ?m) (drop (Suc ?h) ?ys))"
    by (metis append_take_drop_id filter_append length_append)
  also have "filter (\<lambda>v. v \<le> ?m) (take (Suc ?h) ?ys) = take (Suc ?h) ?ys"
    using low by (simp only: filter_id_conv)
  finally have "Suc ?h \<le> length (filter (\<lambda>v. v \<le> ?m) ?ys)"
    using h by simp
  then show "?h < length (filter (\<lambda>v. v \<le> ?m) xs)"
    by (simp only: length_filter_sort)
  have "length (filter (\<lambda>v. ?m \<le> v) ?ys)
          = length (filter (\<lambda>v. ?m \<le> v) (take ?h ?ys))
            + length (filter (\<lambda>v. ?m \<le> v) (drop ?h ?ys))"
    by (metis append_take_drop_id filter_append length_append)
  also have "filter (\<lambda>v. ?m \<le> v) (drop ?h ?ys) = drop ?h ?ys"
    using high by (simp only: filter_id_conv)
  finally have split: "length (filter (\<lambda>v. ?m \<le> v) ?ys)
      = length (filter (\<lambda>v. ?m \<le> v) (take ?h ?ys)) + length (drop ?h ?ys)" .
  have "length (drop ?h ?ys) = Suc ?h" using len by simp
  then have "Suc ?h \<le> length (filter (\<lambda>v. ?m \<le> v) ?ys)"
    unfolding split by (rule ssubst) (rule le_add2)
  then show "?h < length (filter (\<lambda>v. ?m \<le> v) xs)"
    by (simp only: length_filter_sort)
qed

lemma runtests_mean:
  "mean (fst (runtests host res rndSuffix w))
     = Duration_of_float64 (Some (real_of_int (sum_list (map fst (trials w))) / 15))"
proof -
  have "map fst (trials w) \<noteq> []" by (simp add: trials_def testrep_def)
  then have "stats_Mean (map real_of_int (map fst (trials w)))
               = Some (real_of_int (sum_list (map fst (trials w)))
                       / real (length (map fst (trials w))))"
    by (rule stats_Mean_eq)
  then show ?thesis
    by (simp add: runtests_eq length_trials testrep_def del: map_map)
qed

lemma runtests_median:
  "median (fst (runtests host res rndSuffix w)) = sort (map fst (trials w)) ! 7"
proof -
  have "odd (length (map fst (trials w)))" by (simp add: length_trials testrep_def)
  then have "stats_Median (map real_of_int (map fst (trials w)))
               = Some (real_of_int (sort (map fst (trials w)) ! (length (map fst (trials w)) div 2)))"
    by (rule stats_Median_odd)
  then show ?thesis
    by (simp add: runtests_eq Duration_of_float64_int length_trials testrep_def del: map_map)
qed

lemma runtests_failratio:
  "failratio (fst (runtests host res rndSuffix w))
     = real (length (filter (\<lambda>outcome. snd outcome \<noteq> None) (trials w))) / 15"
  by (simp add: runtests_eq testrep_def)

lemma runtests_median_position:
  "median (fst (runtests host res rndSuffix w)) \<in> set (map fst (trials w))"
  "8 \<le> length (filter (\<lambda>v. v \<le> median (fst (runtests host res rndSuffix w))) (map fst (trials w)))"
  "8 \<le> length (filter (\<lambda>v. median (fst (runtests host res rndSuffix w)) \<le> v) (map fst (trials w)))"
proof -
  have odd: "odd (length (map fst (trials w)))" and seven: "length (map fst (trials w)) div 2 = 7"
    by (simp_all add: length_trials testrep_def)
  show "median (fst (runtests host res rndSuffix w)) \<in> set (map fst (trials w))"
    using median_position(1) [OF odd] by (simp only: runtests_median seven)
  show "8 \<le> length (filter (\<lambda>v. v \<le> median (fst (runtests host res rndSuffix w))) (map fst (trials w)))"
    using median_position(2) [OF odd] by (simp only: runtests_median seven)
  show "8 \<le> length (filter (\<lambda>v. median (fst (runtests host res rndSuffix w)) \<le> v) (map fst (trials w)))"
    using median_position(3) [OF odd] by (simp only: runtests_median seven)
qed

lemma Duration_of_float64_near: "\<bar>real_of_int (Duration_of_float64 (Some x)) - x\<bar> < 1"
  unfolding Duration_of_float64_def by (simp split: if_splits) linarith

lemma trials_nth:
  assumes "k < 15" "net w' = net w" "ncalls w' = ncalls w + k"
  shows "trials w ! k = fst (testresolver hostname res w')"
  using assms by (simp add: trials_def testrep_def trial_def testresolver_eq)

lemma trials_fail: "list_all (\<lambda>outcome. snd outcome \<noteq> None \<longrightarrow> fst outcome = failDuration) (trials w)"
  by (simp add: list_all_iff trials_def trial_def probe_result_fail)

text \<open>
  The aggregator's mean is computed in \<open>float64\<close>: the sum of the fifteen durations, which
  is exact, divided by fifteen, which is rounded. When the sum is a multiple of fifteen the
  quotient is exact. Otherwise the exact quotient is at least a fifteenth away from every whole
  number, so any value closer to it than that, the rounded quotient among them, is cut to the
  same whole nanoseconds: for the durations of this program the mean on \<open>real\<close> is the mean
  the program returns.
\<close>

lemma mean_rounding_robust:
  fixes S :: int and y :: real
  assumes "0 \<le> S" "S mod 15 \<noteq> 0" "\<bar>y - real_of_int S / 15\<bar> < 1 / 15"
  shows "Duration_of_float64 (Some y) = Duration_of_float64 (Some (real_of_int S / 15))"
proof -
  define q where "q = S div 15"
  define r where "r = S mod 15"
  have S: "S = 15 * q + r" by (simp add: q_def r_def)
  have r: "1 \<le> r" "r \<le> 14"
    using assms(2) pos_mod_sign [of 15 S] pos_mod_bound [of 15 S] by (simp_all add: r_def)
  have q: "0 \<le> q" using assms(1) by (simp add: q_def pos_imp_zdiv_nonneg_iff)
  have exact: "real_of_int S / 15 = real_of_int q + real_of_int r / 15"
    by (simp add: S)
  have lo: "real_of_int q \<le> y" and hi: "y < real_of_int q + 1"
    using assms(3) r unfolding exact by (simp_all add: abs_less_iff field_simps)
  have lo': "real_of_int q \<le> real_of_int S / 15"
    and hi': "real_of_int S / 15 < real_of_int q + 1"
    using r unfolding exact by simp_all
  have "\<lfloor>y\<rfloor> = q" using lo hi by (intro floor_unique) simp_all
  moreover have "\<lfloor>real_of_int S / 15\<rfloor> = q" using lo' hi' by (intro floor_unique)
  moreover have "0 \<le> y" "0 \<le> real_of_int S / 15" using lo q assms(1) by simp_all
  ultimately show ?thesis by (simp add: Duration_of_float64_def del: floor_divide_of_int_eq)
qed

text \<open>
  Claim C4. One aggregation makes exactly fifteen exchanges, one after the other, and logs
  their fifteen questions in order, all to the given resolver. Without the randomization flag
  every question asks for the hostname itself and no random value is used; with it, question
  \<open>k\<close> asks for a label of fifteen lowercase letters, a dot and the hostname, the label being
  made from fifteen random values of its own. Outcome \<open>k\<close> is what the probe returns on the
  \<open>k\<close>-th of these exchanges, a failed one contributing the fail duration. The summary's mean
  is the arithmetic mean of the fifteen durations, cut to whole nanoseconds; its median is
  the eighth of the sorted durations, which is one of them, with at least eight durations
  at most it and at least eight at least it; its failure ratio is the number of failed
  outcomes over fifteen. \<open>runtests\<close> has a summary for every input: it has no error result.
\<close>

theorem runtests_aggregates:
  "ncalls (snd (runtests host res rndSuffix w)) = ncalls w + 15
   \<and> sent (snd (runtests host res rndSuffix w))
       = sent w @ map (\<lambda>k. question (trial_hostname host rndSuffix w k) res) [0..<15]
   \<and> (\<not> rndSuffix \<longrightarrow>
        trial_hostname host rndSuffix w k = host
        \<and> nrand (snd (runtests host res rndSuffix w)) = nrand w)
   \<and> (rndSuffix \<longrightarrow>
        trial_hostname host rndSuffix w k = rand_label w (nrand w + 15 * k) 15 @ ''.'' @ host
        \<and> length (rand_label w (nrand w + 15 * k) 15) = 15
        \<and> set (rand_label w (nrand w + 15 * k) 15) \<subseteq> set ''abcdefghijklmnopqrstuvwxyz''
        \<and> nrand (snd (runtests host res rndSuffix w)) = nrand w + 15 * 15)
   \<and> length (trials w) = 15
   \<and> (k < 15 \<and> net w' = net w \<and> ncalls w' = ncalls w + k \<longrightarrow>
        trials w ! k = fst (testresolver hostname res w'))
   \<and> list_all (\<lambda>outcome. snd outcome \<noteq> None \<longrightarrow> fst outcome = failDuration) (trials w)
   \<and> mean (fst (runtests host res rndSuffix w))
       = Duration_of_float64 (Some (real_of_int (sum_list (map fst (trials w))) / 15))
   \<and> \<bar>real_of_int (mean (fst (runtests host res rndSuffix w)))
        - real_of_int (sum_list (map fst (trials w))) / 15\<bar> < 1
   \<and> median (fst (runtests host res rndSuffix w)) = sort (map fst (trials w)) ! 7
   \<and> median (fst (runtests host res rndSuffix w)) \<in> set (map fst (trials w))
   \<and> 8 \<le> length (filter (\<lambda>v. v \<le> median (fst (runtests host res rndSuffix w)))
                   (map fst (trials w)))
   \<and> 8 \<le> length (filter (\<lambda>v. median (fst (runtests host res rndSuffix w)) \<le> v)
                   (map fst (trials w)))
   \<and> failratio (fst (runtests host res rndSuffix w))
       = real (length (filter (\<lambda>outcome. snd outcome \<noteq> None) (trials w))) / 15"
proof -
  have world: "snd (runtests host res rndSuffix w)
      = w\<lparr>ncalls := ncalls w + 15,
          nrand := nrand w + (if rndSuffix then 15 * 15 else 0),
          sent := sent w @ map (\<lambda>k. question (trial_hostname host rndSuffix w k) res) [0..<15]\<rparr>"
    by (simp add: runtests_eq testrep_def)
  have label: "set (rand_label w (nrand w + 15 * k) 15) \<subseteq> set ''abcdefghijklmnopqrstuvwxyz''"
    using set_rand_label [of w "nrand w + 15 * k" 15] by (simp only: letterRunes_def)
  have near: "\<bar>real_of_int (mean (fst (runtests host res rndSuffix w)))
        - real_of_int (sum_list (map fst (trials w))) / 15\<bar> < 1"
    unfolding runtests_mean by (rule Duration_of_float64_near)
  have nth: "k < 15 \<and> net w' = net w \<and> ncalls w' = ncalls w + k \<longrightarrow>
        trials w ! k = fst (testresolver hostname res w')"
    using trials_nth by blast
  have len: "length (trials w) = 15" by (simp add: length_trials testrep_def)
  have names: "(\<not> rndSuffix \<longrightarrow> trial_hostname host rndSuffix w k = host)
      \<and> (rndSuffix \<longrightarrow> trial_hostname host rndSuffix w k
                          = rand_label w (nrand w + 15 * k) 15 @ ''.'' @ host)"
    by (simp add: trial_hostname_def)
  have lab_len: "length (rand_label w (nrand w + 15 * k) 15) = 15"
    by (rule length_rand_label)
  have w1: "ncalls (snd (runtests host res rndSuffix w)) = ncalls w + 15"
    and w2: "sent (snd (runtests host res rndSuffix w))
       = sent w @ map (\<lambda>k. question (trial_hostname host rndSuffix w k) res) [0..<15]"
    and w3: "nrand (snd (runtests host res rndSuffix w))
       = nrand w + (if rndSuffix then 15 * 15 else 0)"
    unfolding world by simp_all
  from w3 have w3': "(\<not> rndSuffix \<longrightarrow> nrand (snd (runtests host res rndSuffix w)) = nrand w)
      \<and> (rndSuffix \<longrightarrow> nrand (snd (runtests host res rndSuffix w)) = nrand w + 15 * 15)"
    by (cases rndSuffix) simp_all
  show ?thesis
    using w1 w2 w3' names lab_len label len nth trials_fail [of w]
      runtests_mean [of host res rndSuffix w] near
      runtests_median [of host res rndSuffix w]
      runtests_median_position [of host res rndSuffix w]
      runtests_failratio [of host res rndSuffix w]
    by blast
qed

lemma upt_15: "[0..<15] = [0, 1, 2, 3, 4, 5, 6, 7, 8, 9, 10, 11, 12, 13, 14]"
  by (simp add: upt_rec)

theorem runtests_aggregates_witness:
  "trial_hostname ''tbrum3.com.'' False
     \<lparr>net = (\<lambda>k. if k < 3 then ExchangeError ''i/o timeout''
                  else ExchangeReply [dns_A (IPv4 138 197 54 54)] (10 * Millisecond)),
      rng = (\<lambda>k. k), ncalls = 0, nrand = 0, sent = []\<rparr> 2 = ''tbrum3.com.''
   \<and> trial_hostname ''tbrum3.com.'' True
     \<lparr>net = (\<lambda>k. if k < 3 then ExchangeError ''i/o timeout''
                  else ExchangeReply [dns_A (IPv4 138 197 54 54)] (10 * Millisecond)),
      rng = (\<lambda>k. k), ncalls = 0, nrand = 0, sent = []\<rparr> 1 = ''pqrstuvwxyzabcd.tbrum3.com.''
   \<and> trials
     \<lparr>net = (\<lambda>k. if k < 3 then ExchangeError ''i/o timeout''
                  else ExchangeReply [dns_A (IPv4 138 197 54 54)] (10 * Millisecond)),
      rng = (\<lambda>k. k), ncalls = 0, nrand = 0, sent = []\<rparr> ! 2
     = fst (testresolver ''tbrum3.com.'' ''8.8.8.8'' (\<lparr>net = (\<lambda>k. if k < 3 then ExchangeError ''i/o timeout''
                  else ExchangeReply [dns_A (IPv4 138 197 54 54)] (10 * Millisecond)),
      rng = (\<lambda>k. k), ncalls = 0, nrand = 0, sent = []\<rparr>\<lparr>ncalls := 2\<rparr>))
   \<and> failratio (fst (runtests ''tbrum3.com.'' ''8.8.8.8'' True
     \<lparr>net = (\<lambda>k. if k < 3 then ExchangeError ''i/o timeout''
                  else ExchangeReply [dns_A (IPv4 138 197 54 54)] (10 * Millisecond)),
      rng = (\<lambda>k. k), ncalls = 0, nrand = 0, sent = []\<rparr>)) = 3 / 15
   \<and> mean (fst (runtests ''tbrum3.com.'' ''8.8.8.8'' True
     \<lparr>net = (\<lambda>k. if k < 3 then ExchangeError ''i/o timeout''
                  else ExchangeReply [dns_A (IPv4 138 197 54 54)] (10 * Millisecond)),
      rng = (\<lambda>k. k), ncalls = 0, nrand = 0, sent = []\<rparr>)) = 2008000000
   \<and> median (fst (runtests ''tbrum3.com.'' ''8.8.8.8'' True
     \<lparr>net = (\<lambda>k. if k < 3 then ExchangeError ''i/o timeout''
                  else ExchangeReply [dns_A (IPv4 138 197 54 54)] (10 * Millisecond)),
      rng = (\<lambda>k. k), ncalls = 0, nrand = 0, sent = []\<rparr>)) = 10000000"
proof -
  let ?w = "\<lparr>net = (\<lambda>k. if k < 3 then ExchangeError ''i/o timeout''
                  else ExchangeReply [dns_A (IPv4 138 197 54 54)] (10 * Millisecond)),
      rng = (\<lambda>k. k), ncalls = 0, nrand = 0, sent = []\<rparr>"
  have t: "trials ?w = [(10000000000, Some (ExchangeErr ''i/o timeout'')),
                       (10000000000, Some (ExchangeErr ''i/o timeout'')),
                       (10000000000, Some (ExchangeErr ''i/o timeout'')),
                       (10000000, None),
                       (10000000, None),
                       (10000000, None),
                       (10000000, None),
                       (10000000, None),
                       (10000000, None),
                       (10000000, None),
                       (10000000, None),
                       (10000000, None),
                       (10000000, None),
                       (10000000, None),
                       (10000000, None)]"
    by (simp add: trials_def testrep_def trial_def probe_result_simps upt_15
        Millisecond_def Nanosecond_def failDuration_eq)
  have label: "rand_label ?w (nrand ?w + 15 * 1) 15 = ''pqrstuvwxyzabcd''"
    by (simp add: rand_label_def letterRunes_def upt_15)
  note plain = runtests_aggregates [of "''tbrum3.com.''" "''8.8.8.8''" False ?w 2
      "?w\<lparr>ncalls := 2\<rparr>" "''tbrum3.com.''"]
  note random = runtests_aggregates [of "''tbrum3.com.''" "''8.8.8.8''" True ?w 1]
  have c1: "trial_hostname ''tbrum3.com.'' False ?w 2 = ''tbrum3.com.''"
    using plain [THEN conjunct2, THEN conjunct2, THEN conjunct1] by simp
  have c2: "trial_hostname ''tbrum3.com.'' True ?w 1 = ''pqrstuvwxyzabcd.tbrum3.com.''"
    using random [THEN conjunct2, THEN conjunct2, THEN conjunct2, THEN conjunct1] label
    by simp
  have c3: "trials ?w ! 2 = fst (testresolver ''tbrum3.com.'' ''8.8.8.8'' (?w\<lparr>ncalls := 2\<rparr>))"
    using plain [THEN conjunct2, THEN conjunct2, THEN conjunct2, THEN conjunct2, THEN conjunct2,
        THEN conjunct1]
    by simp
  have c4: "failratio (fst (runtests ''tbrum3.com.'' ''8.8.8.8'' True ?w)) = 3 / 15"
    using random [THEN conjunct2, THEN conjunct2, THEN conjunct2, THEN conjunct2, THEN conjunct2,
        THEN conjunct2, THEN conjunct2, THEN conjunct2, THEN conjunct2, THEN conjunct2,
        THEN conjunct2, THEN conjunct2, THEN conjunct2]
    by (simp add: t)
  have c5: "mean (fst (runtests ''tbrum3.com.'' ''8.8.8.8'' True ?w)) = 2008000000"
    using random [THEN conjunct2, THEN conjunct2, THEN conjunct2, THEN conjunct2, THEN conjunct2,
        THEN conjunct2, THEN conjunct2, THEN conjunct1]
    by (simp add: t Duration_of_float64_def)
  have c6: "median (fst (runtests ''tbrum3.com.'' ''8.8.8.8'' True ?w)) = 10000000"
    using random [THEN conjunct2, THEN conjunct2, THEN conjunct2, THEN conjunct2, THEN conjunct2,
        THEN conjunct2, THEN conjunct2, THEN conjunct2, THEN conjunct2, THEN conjunct1]
    by (simp add: t)
  show ?thesis
    using c1 c2 c3 c4 c5 c6 by (intro conjI)
qed

text \<open>
  Claim C5. When all fifteen trials fail, the failure ratio is exactly one and the mean and
  the median are the fail duration of ten seconds.
\<close>

theorem runtests_all_fail:
  assumes "list_all (\<lambda>outcome. snd outcome \<noteq> None) (trials w)"
  shows "failratio (fst (runtests host res rndSuffix w)) = 1
         \<and> mean (fst (runtests host res rndSuffix w)) = failDuration
         \<and> median (fst (runtests host res rndSuffix w)) = failDuration
         \<and> failDuration = 10 * Second"
proof -
  have all: "\<forall>outcome \<in> set (trials w). snd outcome \<noteq> None \<and> fst outcome = failDuration"
    using assms trials_fail [of w] by (auto simp: list_all_iff)
  then have "filter (\<lambda>outcome. snd outcome \<noteq> None) (trials w) = trials w"
    by (simp only: filter_id_conv) blast
  then have ratio: "failratio (fst (runtests host res rndSuffix w)) = 1"
    by (simp add: runtests_failratio length_trials testrep_def)
  have vals: "map fst (trials w) = replicate 15 failDuration"
  proof (rule replicate_eqI)
    show "length (map fst (trials w)) = 15" by (simp add: length_trials testrep_def)
    fix y assume "y \<in> set (map fst (trials w))"
    then show "y = failDuration" using all by auto
  qed
  have "sum_list (map fst (trials w)) = 15 * failDuration"
    by (simp add: vals sum_list_replicate)
  then have mean: "mean (fst (runtests host res rndSuffix w)) = failDuration"
    by (simp add: runtests_mean Duration_of_float64_int)
  have "median (fst (runtests host res rndSuffix w)) \<in> set (replicate 15 failDuration)"
    using runtests_median_position(1) [of host res rndSuffix w] by (simp only: vals)
  then have median: "median (fst (runtests host res rndSuffix w)) = failDuration"
    by simp
  show ?thesis using ratio mean median by (simp add: failDuration_def)
qed

theorem runtests_all_fail_witness:
  "list_all (\<lambda>outcome. snd outcome \<noteq> None)
     (trials \<lparr>net = (\<lambda>k. ExchangeError ''i/o timeout''), rng = (\<lambda>k. 0), ncalls = 0,
              nrand = 0, sent = []\<rparr>)
   \<and> failratio (fst (runtests ''fixed.turbobytes.net.'' ''8.8.8.8'' False
        \<lparr>net = (\<lambda>k. ExchangeError ''i/o timeout''), rng = (\<lambda>k. 0), ncalls = 0,
         nrand = 0, sent = []\<rparr>)) = 1
   \<and> mean (fst (runtests ''fixed.turbobytes.net.'' ''8.8.8.8'' False
        \<lparr>net = (\<lambda>k. ExchangeError ''i/o timeout''), rng = (\<lambda>k. 0), ncalls = 0,
         nrand = 0, sent = []\<rparr>)) = 10000000000
   \<and> median (fst (runtests ''fixed.turbobytes.net.'' ''8.8.8.8'' False
        \<lparr>net = (\<lambda>k. ExchangeError ''i/o timeout''), rng = (\<lambda>k. 0), ncalls = 0,
         nrand = 0, sent = []\<rparr>)) = 10000000000"
proof -
  have hyp: "list_all (\<lambda>outcome. snd outcome \<noteq> None)
     (trials \<lparr>net = (\<lambda>k. ExchangeError ''i/o timeout''), rng = (\<lambda>k. 0), ncalls = 0,
              nrand = 0, sent = []\<rparr>)"
    by (simp add: list_all_iff trials_def trial_def probe_result_simps)
  show ?thesis
    using hyp runtests_all_fail [OF hyp, of "''fixed.turbobytes.net.''" "''8.8.8.8''" False]
    by (simp add: failDuration_eq)
qed

text \<open>
  Claim C6. When none of the fifteen trials fails and every measured latency is at most
  the one second of the query timeout, the mean and the median are below the fail duration
  (and the failure ratio is zero).
\<close>

theorem runtests_no_fail:
  assumes "list_all (\<lambda>outcome. snd outcome = None \<and> fst outcome \<le> Second) (trials w)"
  shows "mean (fst (runtests host res rndSuffix w)) < failDuration
         \<and> median (fst (runtests host res rndSuffix w)) < failDuration
         \<and> failratio (fst (runtests host res rndSuffix w)) = 0"
proof -
  have all: "\<forall>outcome \<in> set (trials w). snd outcome = None \<and> fst outcome \<le> Second"
    using assms by (simp add: list_all_iff)
  have sec: "Second = 1000000000" "failDuration = 10000000000"
    by (simp_all add: failDuration_def Second_def Millisecond_def Nanosecond_def)
  have "filter (\<lambda>outcome. snd outcome \<noteq> None) (trials w) = []"
    using all by (simp add: filter_empty_conv)
  then have ratio: "failratio (fst (runtests host res rndSuffix w)) = 0"
    by (simp add: runtests_failratio)
  have "sum_list (map fst (trials w)) \<le> sum_list (map (\<lambda>outcome. Second) (trials w))"
    using all by (intro sum_list_mono) simp
  then have sum: "sum_list (map fst (trials w)) \<le> 15 * Second"
    by (simp add: sum_list_triv length_trials testrep_def)
  have "real_of_int (sum_list (map fst (trials w))) \<le> real_of_int (15 * Second)"
    using sum by (simp only: of_int_le_iff)
  then have avg: "real_of_int (sum_list (map fst (trials w))) / 15 \<le> real_of_int Second"
    by simp
  have "Duration_of_float64 (Some (real_of_int (sum_list (map fst (trials w))) / 15)) \<le> Second"
  proof (cases "0 \<le> real_of_int (sum_list (map fst (trials w))) / 15")
    case True
    have "\<lfloor>real_of_int (sum_list (map fst (trials w))) / 15\<rfloor> \<le> \<lfloor>real_of_int Second\<rfloor>"
      using avg by (rule floor_mono)
    with True show ?thesis by (simp add: Duration_of_float64_def del: floor_divide_of_int_eq)
  next
    case False
    then have "\<lceil>real_of_int (sum_list (map fst (trials w))) / 15\<rceil> \<le> 0"
      by (simp add: ceiling_le_iff del: ceiling_divide_eq_div_numeral)
    with False show ?thesis by (simp add: Duration_of_float64_def sec)
  qed
  then have mean: "mean (fst (runtests host res rndSuffix w)) < failDuration"
    by (simp add: runtests_mean sec)
  have "median (fst (runtests host res rndSuffix w)) \<in> fst ` set (trials w)"
    using runtests_median_position(1) [of host res rndSuffix w] by simp
  then have "median (fst (runtests host res rndSuffix w)) \<le> Second"
    using all by auto
  then have median: "median (fst (runtests host res rndSuffix w)) < failDuration"
    by (simp add: sec)
  show ?thesis using ratio mean median by simp
qed

theorem runtests_no_fail_witness:
  "list_all (\<lambda>outcome. snd outcome = None \<and> fst outcome \<le> Second)
     (trials \<lparr>net = (\<lambda>k. ExchangeReply [dns_A (IPv4 138 197 54 54)] (10 * Millisecond)),
              rng = (\<lambda>k. 0), ncalls = 0, nrand = 0, sent = []\<rparr>)
   \<and> mean (fst (runtests ''fixed.turbobytes.net.'' ''8.8.8.8'' False
        \<lparr>net = (\<lambda>k. ExchangeReply [dns_A (IPv4 138 197 54 54)] (10 * Millisecond)),
         rng = (\<lambda>k. 0), ncalls = 0, nrand = 0, sent = []\<rparr>)) < failDuration
   \<and> median (fst (runtests ''fixed.turbobytes.net.'' ''8.8.8.8'' False
        \<lparr>net = (\<lambda>k. ExchangeReply [dns_A (IPv4 138 197 54 54)] (10 * Millisecond)),
         rng = (\<lambda>k. 0), ncalls = 0, nrand = 0, sent = []\<rparr>)) < failDuration
   \<and> failratio (fst (runtests ''fixed.turbobytes.net.'' ''8.8.8.8'' False
        \<lparr>net = (\<lambda>k. ExchangeReply [dns_A (IPv4 138 197 54 54)] (10 * Millisecond)),
         rng = (\<lambda>k. 0), ncalls = 0, nrand = 0, sent = []\<rparr>)) = 0"
proof -
  have hyp: "list_all (\<lambda>outcome. snd outcome = None \<and> fst outcome \<le> Second)
     (trials \<lparr>net = (\<lambda>k. ExchangeReply [dns_A (IPv4 138 197 54 54)] (10 * Millisecond)),
              rng = (\<lambda>k. 0), ncalls = 0, nrand = 0, sent = []\<rparr>)"
    by (simp add: list_all_iff trials_def trial_def probe_result_simps
        Second_def Millisecond_def Nanosecond_def)
  show ?thesis
    using hyp runtests_no_fail [OF hyp, of "''fixed.turbobytes.net.''" "''8.8.8.8''" False]
    by simp
qed

section \<open>Properties of the recursive test orchestrator\<close>

lemma runtests_world:
  "snd (runtests host res rndSuffix w)
     = w\<lparr>ncalls := ncalls w + 15,
         nrand := nrand w + (if rndSuffix then 225 else 0),
         sent := sent w @ map (\<lambda>k. question (trial_hostname host rndSuffix w k) res) [0..<15]\<rparr>"
  by (simp add: runtests_eq testrep_def)

lemma runtests_fst_cong:
  assumes "net w = net w'" "ncalls w = ncalls w'"
  shows "fst (runtests host res rndSuffix w) = fst (runtests host res rndSuffix w')"
proof -
  have "trials w = trials w'" using assms by (simp add: trials_def trial_def)
  then show ?thesis by (simp add: runtests_eq)
qed

lemma testrecursive_prime_eq:
  "testrecursive_prime n hithost res w
     = w\<lparr>ncalls := ncalls w + n, sent := sent w @ replicate n (question hithost res)\<rparr>"
proof (induction n arbitrary: w)
  case 0
  show ?case by simp
next
  case (Suc n)
  show ?case
    by (simp add: testresolver_eq Suc.IH replicate_append_same)
qed

lemma testrecursive_auths_other:
  "k \<notin> set as \<Longrightarrow> fst (testrecursive_auths as res results w) k = results k"
  by (induction as arbitrary: results w) (auto simp: Let_def split: prod.splits)

lemma testrecursive_auths_dom:
  "dom (fst (testrecursive_auths as res results w)) = dom results \<union> set as"
  by (induction as arbitrary: results w) (auto simp: Let_def split: prod.splits)

lemma testrecursive_auths_step:
  "testrecursive_auths (auth # rest) res results w
     = testrecursive_auths rest res
         (results(auth \<mapsto> fst (runtests (auths_at auth) res True w)))
         (snd (runtests (auths_at auth) res True w))"
  by (simp add: Let_def split: prod.splits)

lemma testrecursive_auths_nth:
  "distinct as \<Longrightarrow> i < length as \<Longrightarrow>
   fst (testrecursive_auths as res results w) (as ! i)
     = Some (fst (runtests (auths_at (as ! i)) res True (advance (15 * i) (225 * i) w)))"
proof (induction as arbitrary: i results w)
  case Nil
  then show ?case by simp
next
  case (Cons auth rest)
  let ?w1 = "snd (runtests (auths_at auth) res True w)"
  show ?case
  proof (cases i)
    case 0
    have "fst (runtests (auths_at auth) res True (advance 0 0 w))
            = fst (runtests (auths_at auth) res True w)"
      by (rule runtests_fst_cong) (simp_all add: advance_def)
    with 0 Cons.prems show ?thesis
      by (simp only: testrecursive_auths_step) (simp add: testrecursive_auths_other)
  next
    case (Suc j)
    with Cons.prems have j: "j < length rest" and d: "distinct rest" by simp_all
    have "fst (runtests (auths_at (rest ! j)) res True (advance (15 * j) (225 * j) ?w1))
            = fst (runtests (auths_at (rest ! j)) res True (advance (15 * Suc j) (225 * Suc j) w))"
      by (rule runtests_fst_cong) (simp_all add: advance_def runtests_world)
    with Suc show ?thesis
      by (simp only: testrecursive_auths_step Cons.IH [OF d j] nth_Cons_Suc)
  qed
qed

lemma testrecursive_auths_world:
  "snd (testrecursive_auths as res results w)
     = w\<lparr>ncalls := ncalls w + 15 * length as,
         nrand := nrand w + 225 * length as,
         sent := sent w
           @ concat (map (\<lambda>i. map (\<lambda>k. question (trial_hostname (auths_at (as ! i)) True
                                                  (advance (15 * i) (225 * i) w) k) res)
                                [0..<15])
                      [0..<length as])\<rparr>"
proof (induction as arbitrary: results w)
  case Nil
  show ?case by simp
next
  case (Cons auth rest)
  let ?w1 = "snd (runtests (auths_at auth) res True w)"
  have idx: "[0..<length (auth # rest)] = 0 # map Suc [0..<length rest]"
    by (simp add: upt_conv_Cons map_Suc_upt del: upt_Suc)
  show ?case
    unfolding testrecursive_auths_step Cons.IH idx
    by (simp add: trial_hostname_def rand_label_def advance_def runtests_world comp_def add.assoc
        del: upt_Suc)
qed

lemma testrecursive_eq:
  "testrecursive res w
     = testrecursive_auths authSl res
         [''ResolverHit'' \<mapsto> fst (runtests (drawn_hithost w) res False (advance 5 1 w))]
         (w\<lparr>ncalls := ncalls w + 20, nrand := nrand w + 1,
           sent := sent w @ replicate 5 (question (drawn_hithost w) res)
                     @ map (\<lambda>k. question (trial_hostname (drawn_hithost w) False
                                             (advance 5 1 w) k) res) [0..<15]\<rparr>)"
proof -
  let ?h = "drawn_hithost w"
  let ?w2 = "testrecursive_prime 5 ?h res (w\<lparr>nrand := nrand w + 1\<rparr>)"
  have unfold: "testrecursive res w
      = testrecursive_auths authSl res [''ResolverHit'' \<mapsto> fst (runtests ?h res False ?w2)]
          (snd (runtests ?h res False ?w2))"
    by (simp add: testrecursive_def rand_Intn_eq drawn_hithost_def Let_def split: prod.splits)
  have hit: "fst (runtests ?h res False ?w2) = fst (runtests ?h res False (advance 5 1 w))"
    by (rule runtests_fst_cong) (simp_all add: testrecursive_prime_eq advance_def)
  have world: "snd (runtests ?h res False ?w2)
      = w\<lparr>ncalls := ncalls w + 20, nrand := nrand w + 1,
          sent := sent w @ replicate 5 (question ?h res)
                    @ map (\<lambda>k. question (trial_hostname ?h False (advance 5 1 w) k) res) [0..<15]\<rparr>"
    by (simp add: runtests_world testrecursive_prime_eq trial_hostname_def)
  show ?thesis unfolding unfold hit world ..
qed

lemma drawn_hithost_mem: "drawn_hithost w \<in> set hostnamesHIT"
  unfolding drawn_hithost_def by (rule nth_mem) (simp add: hostnamesHIT_def)

lemma auths_at_authSl:
  "auth \<in> set authSl \<Longrightarrow> map_of auths auth = Some (auths_at auth)"
  by (auto simp: set_authSl auths_at_def split: option.splits dest: weak_map_of_SomeI)

text \<open>
  Claim C8. For a resolver, the orchestrator draws one of the cache-hit hostnames; its log
  then grows by five priming questions for that hostname, whose outcomes reach no result,
  by the fifteen questions of one aggregation for the same hostname without random labels,
  stored under \<open>ResolverHit\<close>, and by the fifteen randomly labelled questions of one
  aggregation per operator for that operator's hostname, stored under the operator's name,
  the operators taken in the order of \<open>authSl\<close>, which is sorted lexicographically and holds
  every configured operator once. The returned bundle has an entry for \<open>ResolverHit\<close> and for
  every configured operator, and for nothing else.
\<close>

theorem testrecursive_bundle:
  "drawn_hithost w \<in> set hostnamesHIT
   \<and> sent (snd (testrecursive res w))
       = sent w
         @ replicate 5 (question (drawn_hithost w) res)
         @ map (\<lambda>k. question (trial_hostname (drawn_hithost w) False (advance 5 1 w) k) res)
             [0..<15]
         @ concat (map (\<lambda>i. map (\<lambda>k. question (trial_hostname (auths_at (authSl ! i)) True
                                      (advance (20 + 15 * i) (1 + 225 * i) w) k) res)
                               [0..<15])
                     [0..<length authSl])
   \<and> trial_hostname (drawn_hithost w) False (advance 5 1 w) k = drawn_hithost w
   \<and> ncalls (snd (testrecursive res w)) = ncalls w + 5 + 15 + 15 * length authSl
   \<and> fst (testrecursive res w) ''ResolverHit''
       = Some (fst (runtests (drawn_hithost w) res False (advance 5 1 w)))
   \<and> (i < length authSl \<longrightarrow>
        fst (testrecursive res w) (authSl ! i)
          = Some (fst (runtests (auths_at (authSl ! i)) res True
                         (advance (20 + 15 * i) (1 + 225 * i) w)))
        \<and> map_of auths (authSl ! i) = Some (auths_at (authSl ! i)))
   \<and> dom (fst (testrecursive res w)) = insert ''ResolverHit'' (fst ` set auths)
   \<and> sorted authSl \<and> distinct authSl \<and> set authSl = fst ` set auths"
proof -
  let ?h = "drawn_hithost w"
  let ?w3 = "w\<lparr>ncalls := ncalls w + 20, nrand := nrand w + 1,
           sent := sent w @ replicate 5 (question ?h res)
                     @ map (\<lambda>k. question (trial_hostname ?h False (advance 5 1 w) k) res) [0..<15]\<rparr>"
  have names: "trial_hostname host True (advance (15 * j) (225 * j) ?w3) k'
      = trial_hostname host True (advance (20 + 15 * j) (1 + 225 * j) w) k'" for host j k'
    by (simp add: trial_hostname_def rand_label_def advance_def add.assoc)
  have log: "sent (snd (testrecursive res w))
       = sent w
         @ replicate 5 (question ?h res)
         @ map (\<lambda>k. question (trial_hostname ?h False (advance 5 1 w) k) res) [0..<15]
         @ concat (map (\<lambda>i. map (\<lambda>k. question (trial_hostname (auths_at (authSl ! i)) True
                                      (advance (20 + 15 * i) (1 + 225 * i) w) k) res)
                               [0..<15])
                     [0..<length authSl])"
    unfolding testrecursive_eq testrecursive_auths_world names by simp
  have calls: "ncalls (snd (testrecursive res w)) = ncalls w + 5 + 15 + 15 * length authSl"
    unfolding testrecursive_eq testrecursive_auths_world by simp
  have plain: "trial_hostname ?h False (advance 5 1 w) k = ?h"
    by (simp add: trial_hostname_def)
  have hit: "fst (testrecursive res w) ''ResolverHit''
       = Some (fst (runtests ?h res False (advance 5 1 w)))"
    unfolding testrecursive_eq using ResolverHit_not_auth
    by (simp add: testrecursive_auths_other)
  have auth: "fst (testrecursive res w) (authSl ! i)
          = Some (fst (runtests (auths_at (authSl ! i)) res True
                         (advance (20 + 15 * i) (1 + 225 * i) w)))"
    if i: "i < length authSl"
  proof -
    have "fst (runtests (auths_at (authSl ! i)) res True (advance (15 * i) (225 * i) ?w3))
        = fst (runtests (auths_at (authSl ! i)) res True (advance (20 + 15 * i) (1 + 225 * i) w))"
      by (rule runtests_fst_cong) (simp_all add: advance_def)
    then show ?thesis
      unfolding testrecursive_eq
      by (simp only: testrecursive_auths_nth [OF distinct_authSl i])
  qed
  have host: "map_of auths (authSl ! i) = Some (auths_at (authSl ! i))" if "i < length authSl"
    using that by (intro auths_at_authSl nth_mem)
  have dom: "dom (fst (testrecursive res w)) = insert ''ResolverHit'' (fst ` set auths)"
    unfolding testrecursive_eq testrecursive_auths_dom by (simp add: set_authSl)
  show ?thesis
    using drawn_hithost_mem [of w] log plain calls hit auth host dom
      sorted_authSl distinct_authSl set_authSl
    by (intro conjI impI) simp_all
qed

theorem testrecursive_bundle_witness:
  "(0::nat) < length authSl
   \<and> drawn_hithost \<lparr>net = (\<lambda>k. ExchangeReply [dns_A (IPv4 138 197 54 54)] (10 * Millisecond)),
       rng = (\<lambda>k. Suc k), ncalls = 0, nrand = 0, sent = []\<rparr> = ''fixed2.turbobytes.net.''
   \<and> fst (testrecursive ''8.8.8.8'' \<lparr>net = (\<lambda>k. ExchangeReply [dns_A (IPv4 138 197 54 54)] (10 * Millisecond)),
       rng = (\<lambda>k. Suc k), ncalls = 0, nrand = 0, sent = []\<rparr>) (authSl ! 0)
       = Some (fst (runtests (auths_at (authSl ! 0)) ''8.8.8.8'' True
                      (advance (20 + 15 * 0) (1 + 225 * 0) \<lparr>net = (\<lambda>k. ExchangeReply [dns_A (IPv4 138 197 54 54)] (10 * Millisecond)),
       rng = (\<lambda>k. Suc k), ncalls = 0, nrand = 0, sent = []\<rparr>)))
   \<and> authSl ! 0 = ''AWS Route53''
   \<and> map_of auths (authSl ! 0) = Some ''tbrum5.com.''
   \<and> ncalls (snd (testrecursive ''8.8.8.8'' \<lparr>net = (\<lambda>k. ExchangeReply [dns_A (IPv4 138 197 54 54)] (10 * Millisecond)),
       rng = (\<lambda>k. Suc k), ncalls = 0, nrand = 0, sent = []\<rparr>)) = 185
   \<and> dom (fst (testrecursive ''8.8.8.8'' \<lparr>net = (\<lambda>k. ExchangeReply [dns_A (IPv4 138 197 54 54)] (10 * Millisecond)),
       rng = (\<lambda>k. Suc k), ncalls = 0, nrand = 0, sent = []\<rparr>))
       = {''ResolverHit'', ''NS1'', ''Google'', ''AWS Route53'', ''DNSimple'', ''GoDaddy'',
          ''Akamai'', ''Dyn'', ''CloudFlare'', ''EasyDNS'', ''Ultradns'', ''Azure''}"
proof -
  let ?w = "\<lparr>net = (\<lambda>k. ExchangeReply [dns_A (IPv4 138 197 54 54)] (10 * Millisecond)),
       rng = (\<lambda>k. Suc k), ncalls = 0, nrand = 0, sent = []\<rparr>"
  note inst = testrecursive_bundle [of ?w "''8.8.8.8''" 0 0]
  have len: "(0::nat) < length authSl" by (simp add: authSl_eq)
  have c1: "drawn_hithost ?w = ''fixed2.turbobytes.net.''"
    by (simp add: drawn_hithost_def hostnamesHIT_def)
  have c2: "fst (testrecursive ''8.8.8.8'' ?w) (authSl ! 0)
       = Some (fst (runtests (auths_at (authSl ! 0)) ''8.8.8.8'' True
                      (advance (20 + 15 * 0) (1 + 225 * 0) ?w)))"
    and c3: "map_of auths (authSl ! 0) = Some (auths_at (authSl ! 0))"
    using inst [THEN conjunct2, THEN conjunct2, THEN conjunct2, THEN conjunct2, THEN conjunct2,
        THEN conjunct1] len
    by (blast+)
  have first: "authSl ! 0 = ''AWS Route53''" by (simp add: authSl_eq)
  have c4: "map_of auths (authSl ! 0) = Some ''tbrum5.com.''"
    using c3 by (simp add: first auths_at_def auths_def)
  have c5: "ncalls (snd (testrecursive ''8.8.8.8'' ?w)) = 185"
    using inst [THEN conjunct2, THEN conjunct2, THEN conjunct2, THEN conjunct1]
    by (simp add: authSl_eq)
  have c6: "dom (fst (testrecursive ''8.8.8.8'' ?w))
       = {''ResolverHit'', ''NS1'', ''Google'', ''AWS Route53'', ''DNSimple'', ''GoDaddy'',
          ''Akamai'', ''Dyn'', ''CloudFlare'', ''EasyDNS'', ''Ultradns'', ''Azure''}"
    using inst [THEN conjunct2, THEN conjunct2, THEN conjunct2, THEN conjunct2, THEN conjunct2,
        THEN conjunct2, THEN conjunct1]
    by (simp add: auths_def)
  show ?thesis
    using len c1 c2 first c4 c5 c6 by (intro conjI)
qed

section \<open>Properties of the final summary\<close>

lemma main_rows_eq:
  "main_rows raw summary table out
     = (table @ map (\<lambda>row. (Res row @ '' (''
                              @ (if resolverNames_at (Res row) = [] then ''Unknown''
                                 else resolverNames_at (Res row)) @ '')'',
                            SummaryResolver.Score row)) summary,
        out @ (if raw then map (\<lambda>row. Printf_Score (Res row) (SummaryResolver.Score row)) summary
               else []))"
  by (induction summary arbitrary: table out) (simp_all add: Let_def)

lemma printed_rows_append: "printed_rows (xs @ ys) = printed_rows xs @ printed_rows ys"
  by (induction xs rule: printed_rows.induct) simp_all

lemma printed_rows_scores:
  "printed_rows (map (\<lambda>row. Printf_Score (f row) (g row)) summary) = map (\<lambda>row. (f row, g row)) summary"
  by (induction summary) simp_all

lemma printed_recommendation_append:
  "printed_recommendation (xs @ ys) = printed_recommendation xs @ printed_recommendation ys"
  by (induction xs rule: printed_recommendation.induct) simp_all

lemma printed_recommendation_scores:
  "printed_recommendation (map (\<lambda>row. Printf_Score (f row) (g row)) summary) = []"
  by (induction summary) simp_all

lemma sort_Sort_sorted:
  assumes "sort_Sort before after"
  shows "sorted (map SummaryResolver.Score after)"
proof -
  have "SummaryResolver.Score (after ! i) \<le> SummaryResolver.Score (after ! j)"
    if "i < j" "j < length after" for i j
    using assms that by (auto simp: sort_Sort_def Less_def not_less)
  then show ?thesis
    by (simp add: sorted_iff_nth_mono_less)
qed

lemma sort_Sort_set:
  assumes "sort_Sort (main_summary resscore) summary"
  shows "set summary = (\<lambda>(k, v). \<lparr>Res = k, Score = v\<rparr>) ` set resscore"
    and "length summary = length resscore"
proof -
  have m: "mset summary = mset (main_summary resscore)"
    using assms by (simp add: sort_Sort_def)
  from m have "set summary = set (main_summary resscore)" by (rule mset_eq_setD)
  then show "set summary = (\<lambda>(k, v). \<lparr>Res = k, Score = v\<rparr>) ` set resscore"
    by (simp add: main_summary_def)
  from m have "length summary = length (main_summary resscore)" by (rule mset_eq_length)
  then show "length summary = length resscore" by (simp add: main_summary_def)
qed

text \<open>
  Claim C9. Whatever order the scores are collected in and whichever sorted arrangement
  \<open>sort.Sort\<close> produces, with at least one resolver the report is printed without a panic;
  its rows (the \<open>Score\<close> lines in raw mode, the rows of the table otherwise) are the entries
  of the summary in order, with ascending scores; and the one resolver recommended (on the
  \<open>Recommendation\<close> line in raw mode, in the closing sentence otherwise) is the resolver of
  the first row, which is one of the scored resolvers and has the least score.
\<close>

theorem main_recommendation:
  assumes "sort_Sort (main_summary resscore) summary" and "resscore \<noteq> []"
  shows "\<exists>out. main_report raw summary = Inr out
           \<and> (raw \<longrightarrow> printed_rows out
                          = map (\<lambda>row. (Res row, SummaryResolver.Score row)) summary)
           \<and> (\<not> raw \<longrightarrow> printed_rows out
                          = map (\<lambda>row. (Res row @ '' (''
                                          @ (if resolverNames_at (Res row) = [] then ''Unknown''
                                             else resolverNames_at (Res row)) @ '')'',
                                        SummaryResolver.Score row)) summary)
           \<and> sorted (map snd (printed_rows out))
           \<and> printed_recommendation out = [Res (summary ! 0)]
           \<and> (Res (summary ! 0), SummaryResolver.Score (summary ! 0)) \<in> set resscore
           \<and> (\<forall>entry \<in> set resscore. SummaryResolver.Score (summary ! 0) \<le> snd entry)"
proof -
  have len: "0 < length summary"
    using sort_Sort_set(2) [OF assms(1)] assms(2) by simp
  have sorted: "sorted (map SummaryResolver.Score summary)"
    using assms(1) by (rule sort_Sort_sorted)
  have "summary ! 0 \<in> set summary" using len by (rule nth_mem)
  then have first: "(Res (summary ! 0), SummaryResolver.Score (summary ! 0)) \<in> set resscore"
    unfolding sort_Sort_set(1) [OF assms(1)] by auto
  have least: "SummaryResolver.Score (summary ! 0) \<le> snd entry" if "entry \<in> set resscore" for entry
  proof -
    have "\<lparr>Res = fst entry, Score = snd entry\<rparr> \<in> set summary"
      unfolding sort_Sort_set(1) [OF assms(1)] using that by force
    then obtain j where j: "j < length summary" "summary ! j = \<lparr>Res = fst entry, Score = snd entry\<rparr>"
      by (auto simp: in_set_conv_nth)
    have "map SummaryResolver.Score summary ! 0 \<le> map SummaryResolver.Score summary ! j"
      using sorted j(1) by (intro sorted_nth_mono) simp_all
    then show ?thesis using j len by simp
  qed
  show ?thesis
  proof (cases raw)
    case True
    let ?out = "map (\<lambda>row. Printf_Score (Res row) (SummaryResolver.Score row)) summary
                  @ [Printf_Recommendation (Res (summary ! 0))]"
    have "main_report raw summary = Inr ?out"
      using True len by (simp add: main_report_def main_rows_eq)
    moreover have "printed_rows ?out = map (\<lambda>row. (Res row, SummaryResolver.Score row)) summary"
      by (simp add: printed_rows_append printed_rows_scores)
    moreover have "printed_recommendation ?out = [Res (summary ! 0)]"
      by (simp add: printed_recommendation_append printed_recommendation_scores)
    moreover have "map snd (map (\<lambda>row. (Res row, SummaryResolver.Score row)) summary)
                     = map SummaryResolver.Score summary"
      by simp
    ultimately show ?thesis using True sorted first least by (intro exI [of _ ?out]) (simp add: comp_def)
  next
    case False
    let ?table = "map (\<lambda>row. (Res row @ '' (''
                                 @ (if resolverNames_at (Res row) = [] then ''Unknown''
                                    else resolverNames_at (Res row)) @ '')'',
                               SummaryResolver.Score row)) summary"
    let ?out = "[Println ''========== Summary ==========='', Println ''Scores (lower is better)'',
                 table_Render ?table, Printf_You_should_probably_use (Res (summary ! 0))]"
    have "main_report raw summary = Inr ?out"
      using False len by (simp add: main_report_def main_rows_eq)
    moreover have "printed_rows ?out = ?table" by simp
    moreover have "printed_recommendation ?out = [Res (summary ! 0)]" by simp
    moreover have "map snd ?table = map SummaryResolver.Score summary" by simp
    ultimately show ?thesis using False sorted first least by (intro exI [of _ ?out]) (simp add: comp_def)
  qed
qed

theorem main_recommendation_witness:
  "sort_Sort (main_summary [(''8.8.8.8'', 320), (''1.1.1.1'', 100)])
     [\<lparr>Res = ''1.1.1.1'', Score = 100\<rparr>, \<lparr>Res = ''8.8.8.8'', Score = 320\<rparr>]
   \<and> [(''8.8.8.8'', 320 :: real), (''1.1.1.1'', 100)] \<noteq> []
   \<and> (\<exists>out. main_report True
                 [\<lparr>Res = ''1.1.1.1'', Score = 100\<rparr>, \<lparr>Res = ''8.8.8.8'', Score = 320\<rparr>] = Inr out
              \<and> printed_rows out = [(''1.1.1.1'', 100), (''8.8.8.8'', 320)]
              \<and> printed_recommendation out = [''1.1.1.1''])
   \<and> (\<exists>out. main_report False
                 [\<lparr>Res = ''1.1.1.1'', Score = 100\<rparr>, \<lparr>Res = ''8.8.8.8'', Score = 320\<rparr>] = Inr out
              \<and> printed_rows out = [(''1.1.1.1 (Cloudflare)'', 100), (''8.8.8.8 (Google)'', 320)]
              \<and> printed_recommendation out = [''1.1.1.1''])"
proof -
  have srt: "sort_Sort (main_summary [(''8.8.8.8'', 320), (''1.1.1.1'', 100)])
     [\<lparr>Res = ''1.1.1.1'', Score = 100\<rparr>, \<lparr>Res = ''8.8.8.8'', Score = 320\<rparr>]"
    by (auto simp: sort_Sort_def main_summary_def Less_def less_Suc_eq)
  have ne: "[(''8.8.8.8'', 320 :: real), (''1.1.1.1'', 100)] \<noteq> []" by simp
  have names: "resolverNames_at ''1.1.1.1'' = ''Cloudflare''" "resolverNames_at ''8.8.8.8'' = ''Google''"
    by (simp_all add: resolverNames_at_def resolverNames_def)
  show ?thesis
    using srt ne main_recommendation [OF srt ne, of True] main_recommendation [OF srt ne, of False]
    by (simp add: names) blast
qed

end
